theory Spec2Isabelle
  imports Main "HOL-Library.Multiset"
begin

section \<open>Values shared by both test doubles\<close>

text \<open>
  \<^verbatim>\<open>src/txjuju/testing/api.py\<close> holds two test doubles: \<^verbatim>\<open>FakeAPIBackend\<close>, a fake
  transport that sits under a real \<^verbatim>\<open>APIClientProtocol\<close>, and \<^verbatim>\<open>FakeAPIClientProtocol\<close>,
  a fake protocol. Both move JSON values around. A JSON object is kept as the list of its
  items, with distinct keys, in insertion order, which is the order \<^verbatim>\<open>json.dumps\<close>
  emits; a wire string is
  represented by the JSON value it encodes, so \<^verbatim>\<open>json.loads\<close> and \<^verbatim>\<open>json.dumps\<close> do not
  appear. Floating point numbers are left out.
\<close>

datatype json =
    JNull
  | JBool bool
  | JInt int
  | JStr string
  | JList "json list"
  | JDict "(string \<times> json) list"

text \<open>
  The Python exceptions the two classes can raise. The last value is not an exception of
  Python: it marks an input that the model does not cover.
\<close>

datatype exn =
    KeyError
  | IndexError
  | ValueError
  | TypeError
  | AttributeError
  | AssertionError
  | AlreadyCalledError
  | NotModelled

text \<open>What a Twisted \<^verbatim>\<open>Failure\<close> wraps.\<close>

datatype failure =
    ConnectionDone
  | ConnectionLost string
  | Reason string

text \<open>\<^verbatim>\<open>d[k] = v\<close> on a dict: an existing key keeps its place, a new key goes last.\<close>

fun dict_set :: "(string \<times> json) list \<Rightarrow> string \<Rightarrow> json \<Rightarrow> (string \<times> json) list" where
  "dict_set [] k v = [(k, v)]"
| "dict_set ((k', v') # kvs) k v =
     (if k' = k then (k, v) # kvs else (k', v') # dict_set kvs k v)"

text \<open>\<^verbatim>\<open>d.get(k)\<close> on a JSON value that should be an object.\<close>

fun dict_get :: "json \<Rightarrow> string \<Rightarrow> json option" where
  "dict_get (JDict kvs) k = map_of kvs k"
| "dict_get _ k = None"


section \<open>FakeAPIBackend\<close>

text \<open>
  The fields of \<^verbatim>\<open>FakeAPIBackend\<close>. Its \<^verbatim>\<open>protocol\<close> field holds an
  \<^verbatim>\<open>APIClientProtocol\<close>, a class of \<^verbatim>\<open>txjuju.protocol\<close> that is not among the sources;
  the two calls the backend makes on it, \<^verbatim>\<open>dataReceived\<close> in \<^verbatim>\<open>_fire\<close> and
  \<^verbatim>\<open>connectionLost\<close> in \<^verbatim>\<open>loseConnection\<close>, are therefore results of the model: each
  function returns the argument it hands to the protocol. Request ids are the integers
  the protocol numbers its requests with.
\<close>

record backend =
  requests :: "int \<rightharpoonup> json"
  pending :: "int list"
  connected :: bool
  version :: int

text \<open>\<^verbatim>\<open>__init__(self, version=1)\<close>.\<close>

definition FakeAPIBackend :: "int \<Rightarrow> backend" where
  "FakeAPIBackend v = \<lparr> requests = Map.empty, pending = [], connected = True, version = v \<rparr>"

text \<open>
  \<^verbatim>\<open>write(self, data)\<close>, under a longer name since \<open>write\<close> is a keyword of Isar:
  the payload is decoded, its \<^verbatim>\<open>RequestId\<close> is appended to
  \<^verbatim>\<open>pending\<close> and the payload stored under it. A payload that is not an object raises
  TypeError on the subscript and a payload without the key raises KeyError, both before
  anything is changed. The method has no test on the type of the id: it records any
  JSON value. The protocol numbers its requests with integers (section 3 of the
  specification), and the model keeps the ids as integers; a \<^verbatim>\<open>RequestId\<close> of another
  JSON type is outside the model, which marks it with a value of its own instead of
  recording it.
\<close>

definition backend_write :: "json \<Rightarrow> backend \<Rightarrow> (exn + unit) \<times> backend" where
  "backend_write payload b =
     (case payload of
        JDict kvs \<Rightarrow>
          (case map_of kvs ''RequestId'' of
             None \<Rightarrow> (Inl KeyError, b)
           | Some (JInt request_id) \<Rightarrow>
               (Inr (),
                b\<lparr> pending := pending b @ [request_id],
                   requests := (requests b)(request_id \<mapsto> payload) \<rparr>)
           | Some _ \<Rightarrow> (Inl NotModelled, b))
      | _ \<Rightarrow> (Inl TypeError, b))"

text \<open>
  \<^verbatim>\<open>loseConnection(self)\<close>: clears the flag and hands
  \<^verbatim>\<open>Failure(ConnectionLost("Lost the connection"))\<close> to \<^verbatim>\<open>protocol.connectionLost\<close>.
\<close>

definition loseConnection :: "backend \<Rightarrow> failure \<times> backend" where
  "loseConnection b = (ConnectionLost ''Lost the connection'', b\<lparr> connected := False \<rparr>)"

text \<open>
  \<^verbatim>\<open>_fire(self, payload, requestId)\<close>. With no id given the oldest pending id is taken,
  and \<^verbatim>\<open>pending[0]\<close> raises IndexError on an empty list. \<^verbatim>\<open>pending.remove\<close> deletes the
  first occurrence and raises ValueError when there is none. The result is the payload
  handed to \<^verbatim>\<open>protocol.dataReceived\<close>.
\<close>

definition fire :: "(string \<times> json) list \<Rightarrow> int option \<Rightarrow> backend \<Rightarrow> (exn + json) \<times> backend" where
  "fire payload requestId b =
     (case (case requestId of
              None \<Rightarrow> (case pending b of [] \<Rightarrow> Inl IndexError | r # _ \<Rightarrow> Inr r)
            | Some r \<Rightarrow> Inr r) of
        Inl e \<Rightarrow> (Inl e, b)
      | Inr r \<Rightarrow>
          (if r \<in> set (pending b)
           then (Inr (JDict (dict_set payload ''RequestId'' (JInt r))),
                 b\<lparr> pending := remove1 r (pending b) \<rparr>)
           else (Inl ValueError, b)))"

text \<open>\<^verbatim>\<open>response(self, response, requestId=None)\<close>.\<close>

definition response :: "json \<Rightarrow> int option \<Rightarrow> backend \<Rightarrow> (exn + json) \<times> backend" where
  "response resp requestId b = fire [(''Response'', resp)] requestId b"

text \<open>
  \<^verbatim>\<open>error(self, exception, requestId=None)\<close>. The exception carries the attributes
  \<^verbatim>\<open>error\<close> and \<^verbatim>\<open>code\<close>.
\<close>

record request_error =
  exception_error :: json
  exception_code :: json

definition error :: "request_error \<Rightarrow> int option \<Rightarrow> backend \<Rightarrow> (exn + json) \<times> backend" where
  "error exception requestId b =
     fire [(''Error'', exception_error exception), (''ErrorCode'', exception_code exception)]
       requestId b"

text \<open>\<^verbatim>\<open>responseWatchAll(self)\<close>.\<close>

definition responseWatchAll :: "backend \<Rightarrow> (exn + json) \<times> backend" where
  "responseWatchAll b = response (JDict [(''AllWatcherId'', JStr ''1'')]) None b"

text \<open>
  The entity classes come from another module of the package that is not among the
  sources; the formatters read the attributes below from them. An instance of any other
  class is kept by its class name.
\<close>

record AnnotationInfo =
  annotation_name :: json
  annotation_pairs :: json

record JujuApplicationInfo =
  application_name :: json
  application_charmURL :: json

record UnitInfo =
  unit_name :: json
  unit_applicationName :: json
  unit_charmURL :: json

record MachineInfo =
  machine_id :: json
  machine_instanceId :: json
  machine_status :: json

datatype entity =
    Annotation AnnotationInfo
  | Application JujuApplicationInfo
  | Unit UnitInfo
  | Machine MachineInfo
  | OtherClass string

text \<open>The four formatters, \<^verbatim>\<open>_formatAnnotationInfo\<close> to \<^verbatim>\<open>_formatMachineInfo\<close>.\<close>

definition formatAnnotationInfo :: "backend \<Rightarrow> AnnotationInfo \<Rightarrow> string \<Rightarrow> json" where
  "formatAnnotationInfo b info verb =
     JList [JStr ''annotation'', JStr verb,
            JDict [(''Annotations'', annotation_pairs info), (''Tag'', annotation_name info)]]"

definition formatJujuApplicationInfo :: "backend \<Rightarrow> JujuApplicationInfo \<Rightarrow> string \<Rightarrow> json" where
  "formatJujuApplicationInfo b info verb =
     (let entityName = (if version b = 1 then ''service'' else ''application'')
      in JList [JStr entityName, JStr verb,
                JDict [(''Name'', application_name info),
                       (''CharmURL'', application_charmURL info)]])"

definition formatUnitInfo :: "backend \<Rightarrow> UnitInfo \<Rightarrow> string \<Rightarrow> json" where
  "formatUnitInfo b info verb =
     JList [JStr ''unit'', JStr verb,
            JDict [(''Name'', unit_name info), (''Service'', unit_applicationName info),
                   (''CharmURL'', unit_charmURL info)]]"

definition formatMachineInfo :: "backend \<Rightarrow> MachineInfo \<Rightarrow> string \<Rightarrow> json" where
  "formatMachineInfo b info verb =
     JList [JStr ''machine'', JStr verb,
            JDict [(''Id'', machine_id info), (''InstanceId'', machine_instanceId info),
                   (''Status'', machine_status info)]]"

text \<open>
  A delta is an entity or a pair of an entity and a verb. The body of the loop of
  \<^verbatim>\<open>responseDeltas\<close> has three steps: a delta that is not a tuple gets the verb
  \<^verbatim>\<open>change\<close>; the formatter is looked up by the class name of the entity, and
  \<^verbatim>\<open>getattr\<close> raises AttributeError when the backend has none; the formatter is called
  on the entity and the verb.
\<close>

datatype delta = Bare entity | Pair entity string

fun as_tuple :: "delta \<Rightarrow> entity \<times> string" where
  "as_tuple (Bare e) = (e, ''change'')"
| "as_tuple (Pair e verb) = (e, verb)"

fun call_formatter :: "backend \<Rightarrow> entity \<Rightarrow> string \<Rightarrow> exn + json" where
  "call_formatter b (Annotation info) verb = Inr (formatAnnotationInfo b info verb)"
| "call_formatter b (Application info) verb = Inr (formatJujuApplicationInfo b info verb)"
| "call_formatter b (Unit info) verb = Inr (formatUnitInfo b info verb)"
| "call_formatter b (Machine info) verb = Inr (formatMachineInfo b info verb)"
| "call_formatter b (OtherClass c) verb = Inl AttributeError"

definition format_delta :: "backend \<Rightarrow> delta \<Rightarrow> exn + json" where
  "format_delta b d = (case as_tuple d of (e, verb) \<Rightarrow> call_formatter b e verb)"

text \<open>The loop of \<^verbatim>\<open>responseDeltas\<close>, with \<^verbatim>\<open>responses\<close> as its accumulator.\<close>

fun format_deltas :: "backend \<Rightarrow> json list \<Rightarrow> delta list \<Rightarrow> exn + json list" where
  "format_deltas b responses [] = Inr responses"
| "format_deltas b responses (d # deltas) =
     (case format_delta b d of
        Inl e \<Rightarrow> Inl e
      | Inr r \<Rightarrow> format_deltas b (responses @ [r]) deltas)"

text \<open>\<^verbatim>\<open>responseDeltas(self, deltas)\<close>.\<close>

definition responseDeltas :: "delta list \<Rightarrow> backend \<Rightarrow> (exn + json) \<times> backend" where
  "responseDeltas deltas b =
     (case format_deltas b [] deltas of
        Inl e \<Rightarrow> (Inl e, b)
      | Inr responses \<Rightarrow> response (JDict [(''Deltas'', JList responses)]) None b)"


section \<open>FakeAPIClientProtocol\<close>

text \<open>
  A Twisted \<^verbatim>\<open>Deferred\<close> is an object shared between the caller of \<^verbatim>\<open>sendRequest\<close>, who
  gets it back, and the list of pending requests, which keeps it until it is fired. The
  model keeps the Deferreds in a store indexed by reference: an entry is \<open>None\<close> until the
  Deferred has been called and holds what it was called with afterwards. No callbacks are
  attached to a Deferred inside the class, so firing one only records the result.
\<close>

datatype fired = Callback json | Errback failure

type_synonym ref = nat

text \<open>
  The request tuple \<^verbatim>\<open>(entityType, requestInfo, entityId, params, facade_version)\<close> built
  by \<^verbatim>\<open>sendRequest\<close>.
\<close>

type_synonym request = "string \<times> string \<times> string option \<times> json option \<times> int"

record fake_protocol =
  protocol_connected :: bool
  disconnected :: ref
  pending_requests :: "(request \<times> ref) list"
  queued_errors :: "failure list"
  queued_responses :: "(string \<times> string \<times> json) list"
  deferreds :: "ref \<Rightarrow> fired option"
  allocated :: nat

text \<open>
  \<^verbatim>\<open>Deferred()\<close>: a new object, not yet called. Where the source names a Deferred
  \<^verbatim>\<open>response\<close> the model says \<open>deferred\<close>, since \<open>response\<close> is the backend's method.
\<close>

definition Deferred :: "fake_protocol \<Rightarrow> ref \<times> fake_protocol" where
  "Deferred p =
     (allocated p,
      p\<lparr> deferreds := (deferreds p)(allocated p := None), allocated := Suc (allocated p) \<rparr>)"

text \<open>The attribute \<^verbatim>\<open>called\<close> of a Deferred.\<close>

definition called :: "fake_protocol \<Rightarrow> ref \<Rightarrow> bool" where
  "called p d = (deferreds p d \<noteq> None)"

text \<open>
  \<^verbatim>\<open>Deferred.callback\<close> and \<^verbatim>\<open>Deferred.errback\<close>: Twisted raises AlreadyCalledError when
  the Deferred has been called before, and keeps the first result.
\<close>

definition fire_deferred :: "ref \<Rightarrow> fired \<Rightarrow> fake_protocol \<Rightarrow> (exn + unit) \<times> fake_protocol" where
  "fire_deferred d x p =
     (if called p d then (Inl AlreadyCalledError, p)
      else (Inr (), p\<lparr> deferreds := (deferreds p)(d \<mapsto> x) \<rparr>))"

definition callback :: "ref \<Rightarrow> json \<Rightarrow> fake_protocol \<Rightarrow> (exn + unit) \<times> fake_protocol" where
  "callback d content p = fire_deferred d (Callback content) p"

definition errback :: "ref \<Rightarrow> failure \<Rightarrow> fake_protocol \<Rightarrow> (exn + unit) \<times> fake_protocol" where
  "errback d reason p = fire_deferred d (Errback reason) p"

text \<open>
  \<^verbatim>\<open>__init__(self)\<close>, with the class attribute \<^verbatim>\<open>connected = True\<close>: the Deferred
  \<^verbatim>\<open>disconnected\<close> is the first object of the store.
\<close>

definition FakeAPIClientProtocol :: fake_protocol where
  "FakeAPIClientProtocol =
     \<lparr> protocol_connected = True, disconnected = 0, pending_requests = [],
       queued_errors = [], queued_responses = [], deferreds = (\<lambda>_. None), allocated = 1 \<rparr>"

text \<open>
  \<^verbatim>\<open>sendRequest(self, entityType, requestInfo, entityId=None, params=None, facade_version=1)\<close>.
  A queued error is popped and fired first; else a queued response is popped, checked by
  the two assertions and fired; else the request becomes pending. A failed assertion
  leaves the queued response popped.
\<close>

definition sendRequest ::
  "string \<Rightarrow> string \<Rightarrow> string option \<Rightarrow> json option \<Rightarrow> int \<Rightarrow> fake_protocol
     \<Rightarrow> (exn + ref) \<times> fake_protocol" where
  "sendRequest entityType requestInfo entityId params facade_version p0 =
     (let request = (entityType, requestInfo, entityId, params, facade_version);
          (deferred, p) = Deferred p0
      in case queued_errors p of
           reason # errors \<Rightarrow>
             (case errback deferred reason (p\<lparr> queued_errors := errors \<rparr>) of
                (Inl e, p') \<Rightarrow> (Inl e, p')
              | (Inr _, p') \<Rightarrow> (Inr deferred, p'))
         | [] \<Rightarrow>
             (case queued_responses p of
                (prepType, prepInfo, content) # responses \<Rightarrow>
                  (let p1 = p\<lparr> queued_responses := responses \<rparr>
                   in if prepType \<noteq> entityType then (Inl AssertionError, p1)
                      else if prepInfo \<noteq> requestInfo then (Inl AssertionError, p1)
                      else (case callback deferred content p1 of
                              (Inl e, p') \<Rightarrow> (Inl e, p')
                            | (Inr _, p') \<Rightarrow> (Inr deferred, p')))
              | [] \<Rightarrow>
                  (Inr deferred,
                   p\<lparr> pending_requests := pending_requests p @ [(request, deferred)] \<rparr>)))"

text \<open>
  \<^verbatim>\<open>response(self, entityType, request, content)\<close>: the first pending request is popped,
  its first two components are compared with the arguments, and its Deferred is called;
  with nothing pending the response is queued.
\<close>

definition protocol_response ::
  "string \<Rightarrow> string \<Rightarrow> json \<Rightarrow> fake_protocol \<Rightarrow> (exn + unit) \<times> fake_protocol" where
  "protocol_response entityType request content p =
     (case pending_requests p of
        (request_info, deferred) # rest \<Rightarrow>
          (let p1 = p\<lparr> pending_requests := rest \<rparr>;
               expected = (entityType, request);
               obtained = (fst request_info, fst (snd request_info))
           in if expected \<noteq> obtained then (Inl AssertionError, p1)
              else callback deferred content p1)
      | [] \<Rightarrow>
          (Inr (),
           p\<lparr> queued_responses := queued_responses p @ [(entityType, request, content)] \<rparr>))"

text \<open>\<^verbatim>\<open>error(self, reason)\<close>.\<close>

definition protocol_error :: "failure \<Rightarrow> fake_protocol \<Rightarrow> (exn + unit) \<times> fake_protocol" where
  "protocol_error reason p =
     (case pending_requests p of
        (_, deferred) # rest \<Rightarrow> errback deferred reason (p\<lparr> pending_requests := rest \<rparr>)
      | [] \<Rightarrow> (Inr (), p\<lparr> queued_errors := queued_errors p @ [reason] \<rparr>))"

text \<open>
  \<^verbatim>\<open>_loseConnection(self)\<close>, reached as \<^verbatim>\<open>transport.loseConnection\<close>. The loop fires
  \<^verbatim>\<open>ConnectionDone\<close> at every pending Deferred that has not been called; the list of
  pending requests is left as it is. Then \<^verbatim>\<open>disconnected\<close> is called with \<^verbatim>\<open>None\<close>.
\<close>

fun errback_pending :: "(request \<times> ref) list \<Rightarrow> fake_protocol \<Rightarrow> (exn + unit) \<times> fake_protocol" where
  "errback_pending [] p = (Inr (), p)"
| "errback_pending ((_, deferred) # rest) p =
     (if \<not> called p deferred
      then (case errback deferred ConnectionDone p of
              (Inl e, p') \<Rightarrow> (Inl e, p')
            | (Inr _, p') \<Rightarrow> errback_pending rest p')
      else errback_pending rest p)"

definition protocol_loseConnection :: "fake_protocol \<Rightarrow> (exn + unit) \<times> fake_protocol" where
  "protocol_loseConnection p0 =
     (let p = p0\<lparr> protocol_connected := False \<rparr>
      in case errback_pending (pending_requests p) p of
           (Inl e, p') \<Rightarrow> (Inl e, p')
         | (Inr _, p') \<Rightarrow> callback (disconnected p') JNull p')"


subsection \<open>Tests on the fake protocol\<close>

text \<open>
  A reply a test gives to the fake protocol: a call of \<^verbatim>\<open>response\<close> with its three
  arguments, or a call of \<^verbatim>\<open>error\<close> with its reason.
\<close>

datatype reply = Respond string string json | Fail failure

text \<open>The call the reply stands for.\<close>

fun deliver_reply :: "reply \<Rightarrow> fake_protocol \<Rightarrow> (exn + unit) \<times> fake_protocol" where
  "deliver_reply (Respond entityType request content) p =
     protocol_response entityType request content p"
| "deliver_reply (Fail reason) p = protocol_error reason p"

text \<open>Replies given one after the other; the first exception ends the run.\<close>

fun deliver_replies :: "reply list \<Rightarrow> fake_protocol \<Rightarrow> (exn + unit) \<times> fake_protocol" where
  "deliver_replies [] p = (Inr (), p)"
| "deliver_replies (x # xs) p =
     (case deliver_reply x p of
        (Inl e, p') \<Rightarrow> (Inl e, p')
      | (Inr _, p') \<Rightarrow> deliver_replies xs p')"

text \<open>
  A response answers a request when it names the entity type and the request that
  \<^verbatim>\<open>response\<close> compares in its assertion; an error is not compared with anything.
\<close>

fun answers :: "reply \<Rightarrow> request \<Rightarrow> bool" where
  "answers (Respond entityType request content) r =
     (entityType = fst r \<and> request = fst (snd r))"
| "answers (Fail reason) r = True"

text \<open>What the reply calls a Deferred with.\<close>

fun result_of :: "reply \<Rightarrow> fired" where
  "result_of (Respond entityType request content) = Callback content"
| "result_of (Fail reason) = Errback reason"

text \<open>
  The calls a test makes on the fake protocol: \<^verbatim>\<open>sendRequest\<close>, a reply, and
  \<^verbatim>\<open>transport.loseConnection\<close>.
\<close>

datatype protocol_call =
    SendRequest string string "string option" "json option" int
  | Deliver reply
  | LoseTransport

text \<open>One call: the state it leaves, also when it raises.\<close>

fun protocol_step :: "protocol_call \<Rightarrow> fake_protocol \<Rightarrow> fake_protocol" where
  "protocol_step (SendRequest entityType requestInfo entityId params facade_version) p =
     snd (sendRequest entityType requestInfo entityId params facade_version p)"
| "protocol_step (Deliver x) p = snd (deliver_reply x p)"
| "protocol_step LoseTransport p = snd (protocol_loseConnection p)"

text \<open>The calls of a test in order.\<close>

fun protocol_run :: "protocol_call list \<Rightarrow> fake_protocol \<Rightarrow> fake_protocol" where
  "protocol_run [] p = p"
| "protocol_run (c # cs) p = protocol_run cs (protocol_step c p)"


section \<open>The protocol above the backend\<close>

text \<open>
  \<^verbatim>\<open>FakeAPIBackend\<close> is the transport of an \<^verbatim>\<open>APIClientProtocol\<close>, which numbers the
  requests, matches the replies and feeds the watcher of all changes. That class and the
  watcher live in modules of the package that are not among the sources. This section
  models them from the specification (sections 3, 4.1 to 4.4 and 6), far enough to run
  them against the backend of the source.
\<close>

text \<open>
  Modelled from the spec: the Request of section 3 without its id, that is the arguments
  of \<^verbatim>\<open>send(entityType, requestName, entityId?, parameters?, facadeVersion=1)\<close> of the
  missing \<^verbatim>\<open>APIClientProtocol\<close>.
\<close>

record call =
  call_entityType :: string
  call_requestName :: string
  call_entityId :: "string option"
  call_parameters :: "json option"
  call_facadeVersion :: int

text \<open>
  Modelled from the spec: \<^verbatim>\<open>encode\<close> of the missing Wire Codec (section 4.2), with the
  outgoing shape \<^verbatim>\<open>{RequestId, Type, Request, Id?, Params?, Version}\<close> of section 6.
\<close>

definition encode :: "int \<Rightarrow> call \<Rightarrow> json" where
  "encode rid c =
     JDict ([(''RequestId'', JInt rid), (''Type'', JStr (call_entityType c)),
             (''Request'', JStr (call_requestName c))]
            @ (case call_entityId c of None \<Rightarrow> [] | Some i \<Rightarrow> [(''Id'', JStr i)])
            @ (case call_parameters c of None \<Rightarrow> [] | Some ps \<Rightarrow> [(''Params'', ps)])
            @ [(''Version'', JInt (call_facadeVersion c))])"

text \<open>
  Modelled from the spec: the envelopes of the missing Wire Codec (sections 3 and 4.2). An
  \<^verbatim>\<open>Error\<close> field makes an ErrorEnvelope, otherwise a \<^verbatim>\<open>Response\<close> field makes a
  ResponseEnvelope; a missing request id or neither field is a decode failure.
\<close>

datatype envelope =
    ResponseEnvelope int json
  | ErrorEnvelope int json "json option"
  | DecodeFailure

definition decode :: "json \<Rightarrow> envelope" where
  "decode payload =
     (case dict_get payload ''RequestId'' of
        Some (JInt rid) \<Rightarrow>
          (case dict_get payload ''Error'' of
             Some message \<Rightarrow> ErrorEnvelope rid message (dict_get payload ''ErrorCode'')
           | None \<Rightarrow>
               (case dict_get payload ''Response'' of
                  Some result \<Rightarrow> ResponseEnvelope rid result
                | None \<Rightarrow> DecodeFailure))
      | _ \<Rightarrow> DecodeFailure)"

text \<open>
  Modelled from the spec: the four entity kinds of a ChangeRecord (section 3), which is
  missing with the watcher.
\<close>

datatype kind = KAnnotation | KApplication | KUnit | KMachine

text \<open>
  Modelled from the spec: the two verbs of a ChangeRecord (section 3), \<^verbatim>\<open>change\<close> and
  \<^verbatim>\<open>remove\<close>.
\<close>

datatype verb = VChange | VRemove

text \<open>
  Modelled from the spec: the ChangeRecord of section 3, missing with the watcher: a kind,
  a verb and the kind-specific fields, kept as the JSON object of the wire.
\<close>

datatype change_record = ChangeRecord kind verb json

text \<open>
  Modelled from the spec: the dispatch on the kind tag of a batch element by the missing
  Delta Stream Consumer (section 4.4); \<^verbatim>\<open>service\<close> and \<^verbatim>\<open>application\<close> both name an
  application (section 6).
\<close>

definition decode_kind :: "string \<Rightarrow> kind option" where
  "decode_kind tag =
     (if tag = ''annotation'' then Some KAnnotation
      else if tag = ''service'' \<or> tag = ''application'' then Some KApplication
      else if tag = ''unit'' then Some KUnit
      else if tag = ''machine'' then Some KMachine
      else None)"

text \<open>
  Modelled from the spec: the verb of a batch element, read by the missing Delta Stream
  Consumer (section 3: \<^verbatim>\<open>change\<close> or \<^verbatim>\<open>remove\<close>).
\<close>

definition decode_verb :: "string \<Rightarrow> verb option" where
  "decode_verb v =
     (if v = ''change'' then Some VChange
      else if v = ''remove'' then Some VRemove
      else None)"

text \<open>
  Modelled from the spec: the decoding of one batch element \<^verbatim>\<open>[kind, verb, fields]\<close>
  (section 6) by the missing Delta Stream Consumer; an element that is not recognised is
  a decode failure for that element only (section 4.4).
\<close>

fun decode_element :: "json \<Rightarrow> change_record option" where
  "decode_element (JList [JStr tag, JStr v, body]) =
     (case decode_kind tag of
        None \<Rightarrow> None
      | Some k \<Rightarrow>
          (case decode_verb v of
             None \<Rightarrow> None
           | Some v' \<Rightarrow> Some (ChangeRecord k v' body)))"
| "decode_element _ = None"

text \<open>
  Modelled from the spec: the decoding of a batch by the missing Delta Stream Consumer
  (section 4.4): an element that fails to decode is skipped, and the order of the others
  is kept.
\<close>

definition decode_batch :: "json list \<Rightarrow> change_record list" where
  "decode_batch elements = List.map_filter decode_element elements"

text \<open>
  Modelled from the spec: what a PendingOutcome of the missing Request Correlator
  resolves with (sections 3 and 7): the result of a ResponseEnvelope, the message and
  code of an ErrorEnvelope, or the connection-lost failure.
\<close>

datatype outcome =
    Resolved json
  | Rejected json "json option"
  | ConnectionLostError failure

text \<open>
  Modelled from the spec: the two errors of section 7 that the missing protocol reports
  without failing a request: a reply whose id has no pending request, and an envelope
  that cannot be decoded.
\<close>

datatype report = UnmatchedResponseError int | ProtocolDecodeError

text \<open>
  Modelled from the spec: the states of the missing Connection Lifecycle Manager
  (section 4.3).
\<close>

datatype connection = Connected | Disconnected

text \<open>
  Modelled from the spec: the states of the missing Delta Stream Consumer (section 4.4):
  idle, waiting for the reply to its start call (with the id of that call), waiting for
  a batch under a handle (with the id of the outstanding next-batch call), or stopped.
\<close>

datatype watcher = Idle | Starting int | Polling string int | Stopped

text \<open>
  Modelled from the spec: the state of the missing \<^verbatim>\<open>APIClientProtocol\<close> with its
  watcher. The Request Correlator (section 4.1) has the next id and the ids in flight;
  \<open>outcomes\<close> lists every resolution of a PendingOutcome in the order it fired, and
  \<open>reports\<close> the protocol violations that were reported (section 7). The Connection
  Lifecycle Manager (section 4.3) has the connection state. \<open>published\<close> lists the
  batches the Delta Stream Consumer gave to the subscriber. The specification does not
  name the two calls of the watcher on the wire, so they are a parameter: \<open>watch_calls\<close>
  holds the start call and the next-batch call, the latter without its handle.
\<close>

record client =
  next_id :: int
  in_flight :: "int list"
  outcomes :: "(int \<times> outcome) list"
  reports :: "report list"
  connection :: connection
  watcher :: watcher
  watch_calls :: "call \<times> call"
  published :: "change_record list list"

text \<open>
  Modelled from the spec: a new instance of the missing \<^verbatim>\<open>APIClientProtocol\<close>, connected
  by \<^verbatim>\<open>makeConnection\<close>; ids start at 1 (section 4.1).
\<close>

definition APIClientProtocol :: "call \<times> call \<Rightarrow> client" where
  "APIClientProtocol calls =
     \<lparr> next_id = 1, in_flight = [], outcomes = [], reports = [], connection = Connected,
       watcher = Idle, watch_calls = calls, published = [] \<rparr>"

text \<open>
  Modelled from the spec: \<^verbatim>\<open>send\<close> of the missing Request Correlator (section 4.1): it
  allocates the next id, stores a pending entry under it and emits the envelope. The
  result is the id and the envelope for the transport.
\<close>

definition send :: "call \<Rightarrow> client \<Rightarrow> (int \<times> json) \<times> client" where
  "send c s =
     ((next_id s, encode (next_id s) c),
      s\<lparr> next_id := next_id s + 1, in_flight := in_flight s @ [next_id s] \<rparr>)"

text \<open>
  Modelled from the spec: \<^verbatim>\<open>resolve\<close> and \<^verbatim>\<open>reject\<close> of the missing Request Correlator
  (section 4.1): the pending entry is looked up by id; when it is there it is destroyed
  and its outcome fires, when it is absent the message is reported. The flag tells
  whether an outcome fired.
\<close>

definition settle :: "int \<Rightarrow> outcome \<Rightarrow> client \<Rightarrow> bool \<times> client" where
  "settle rid out s =
     (if rid \<in> set (in_flight s)
      then (True, s\<lparr> in_flight := remove1 rid (in_flight s),
                     outcomes := outcomes s @ [(rid, out)] \<rparr>)
      else (False, s\<lparr> reports := reports s @ [UnmatchedResponseError rid] \<rparr>))"

text \<open>
  Modelled from the spec: the next-batch call of the missing Delta Stream Consumer
  (section 4.4, step 2), bound to the handle.
\<close>

definition next_batch :: "string \<Rightarrow> client \<Rightarrow> (int \<times> json) list \<times> client" where
  "next_batch handle s =
     (let (sent, s') = send ((snd (watch_calls s))\<lparr> call_entityId := Some handle \<rparr>) s
      in ([sent], s'\<lparr> watcher := Polling handle (fst sent) \<rparr>))"

text \<open>
  Modelled from the spec: the start of the watch by the missing Delta Stream Consumer
  (section 4.4, step 1): a start call with no parameters. The specification describes one
  watch per connection, so the model starts one only from the idle state.
\<close>

definition watch_all :: "client \<Rightarrow> (int \<times> json) list \<times> client" where
  "watch_all s =
     (if watcher s = Idle
      then (let (sent, s') = send ((fst (watch_calls s))\<lparr> call_parameters := None \<rparr>) s
            in ([sent], s'\<lparr> watcher := Starting (fst sent) \<rparr>))
      else ([], s))"

text \<open>
  Modelled from the spec: the reaction of the missing Delta Stream Consumer to the
  outcome of its own outstanding call (section 4.4). The reply to the start call gives the
  handle and the first next-batch call goes out; a batch is decoded and published before
  the next call goes out. The specification ends the loop on a watcher-stopped error and
  on connection loss and is silent on other failures of the outstanding call; the model
  ends the loop on every rejection and on a reply it cannot decode, which it reports.
  The result lists the calls the consumer issued.
\<close>

definition watcher_step :: "int \<Rightarrow> outcome \<Rightarrow> client \<Rightarrow> (int \<times> json) list \<times> client" where
  "watcher_step rid out s =
     (case watcher s of
        Starting r \<Rightarrow>
          (if r \<noteq> rid then ([], s)
           else (case out of
                   Resolved result \<Rightarrow>
                     (case dict_get result ''AllWatcherId'' of
                        Some (JStr handle) \<Rightarrow> next_batch handle s
                      | _ \<Rightarrow> ([], s\<lparr> watcher := Stopped,
                                      reports := reports s @ [ProtocolDecodeError] \<rparr>))
                 | _ \<Rightarrow> ([], s\<lparr> watcher := Stopped \<rparr>)))
      | Polling handle r \<Rightarrow>
          (if r \<noteq> rid then ([], s)
           else (case out of
                   Resolved result \<Rightarrow>
                     (case dict_get result ''Deltas'' of
                        Some (JList elements) \<Rightarrow>
                          next_batch handle
                            (s\<lparr> published := published s @ [decode_batch elements] \<rparr>)
                      | _ \<Rightarrow> ([], s\<lparr> watcher := Stopped,
                                      reports := reports s @ [ProtocolDecodeError] \<rparr>))
                 | _ \<Rightarrow> ([], s\<lparr> watcher := Stopped \<rparr>)))
      | _ \<Rightarrow> ([], s))"

text \<open>
  Modelled from the spec: the dispatch of a decoded reply in the missing
  \<^verbatim>\<open>APIClientProtocol\<close> (control flow of section 2): the envelope is matched by id, and
  the watcher reacts when an outcome fired.
\<close>

definition deliver :: "int \<Rightarrow> outcome \<Rightarrow> client \<Rightarrow> (int \<times> json) list \<times> client" where
  "deliver rid out s =
     (case settle rid out s of
        (True, s') \<Rightarrow> watcher_step rid out s'
      | (False, s') \<Rightarrow> ([], s'))"

text \<open>
  Modelled from the spec: \<^verbatim>\<open>dataReceived\<close> of the missing \<^verbatim>\<open>APIClientProtocol\<close>
  (sections 2 and 4.2): the bytes are decoded and the envelope dispatched. A decode
  failure is reported and tied to no request.
\<close>

definition dataReceived :: "json \<Rightarrow> client \<Rightarrow> (int \<times> json) list \<times> client" where
  "dataReceived payload s =
     (case decode payload of
        DecodeFailure \<Rightarrow> ([], s\<lparr> reports := reports s @ [ProtocolDecodeError] \<rparr>)
      | ResponseEnvelope rid result \<Rightarrow> deliver rid (Resolved result) s
      | ErrorEnvelope rid message code \<Rightarrow> deliver rid (Rejected message code) s)"

text \<open>
  Modelled from the spec: \<^verbatim>\<open>connectionLost\<close> of the missing \<^verbatim>\<open>APIClientProtocol\<close>
  (section 4.3): every pending entry is rejected with the connection-lost failure, the
  state becomes Disconnected and the watcher is told to stop.
\<close>

definition connectionLost :: "failure \<Rightarrow> client \<Rightarrow> client" where
  "connectionLost reason s =
     s\<lparr> in_flight := [],
        outcomes := outcomes s @ map (\<lambda>rid. (rid, ConnectionLostError reason)) (in_flight s),
        connection := Disconnected,
        watcher := Stopped \<rparr>"


section \<open>Sessions\<close>

text \<open>
  A session is a backend with its protocol and three logs kept for the statements below:
  \<open>issued\<close> has the ids given to requests in the order they were sent, \<open>wire\<close> the
  payloads the backend handed to \<^verbatim>\<open>protocol.dataReceived\<close>, and \<open>polls\<close> the next-batch
  envelopes the watcher sent in reaction to a reply.
\<close>

record system =
  proto :: client
  transport :: backend
  issued :: "int list"
  wire :: "json list"
  polls :: "json list"

text \<open>
  \<^verbatim>\<open>FakeAPIBackend.__init__\<close> creates the protocol and connects it to the backend.
\<close>

definition connect :: "int \<Rightarrow> call \<times> call \<Rightarrow> system" where
  "connect v calls =
     \<lparr> proto = APIClientProtocol calls, transport = FakeAPIBackend v,
       issued = [], wire = [], polls = [] \<rparr>"

text \<open>
  Modelled from the spec: the write of the missing \<^verbatim>\<open>APIClientProtocol\<close> to its transport
  (control flow of section 2): each envelope it sends goes through \<^verbatim>\<open>write\<close> of the
  backend.
\<close>

fun transmit :: "(int \<times> json) list \<Rightarrow> backend \<Rightarrow> backend" where
  "transmit [] b = b"
| "transmit ((rid, env) # rest) b = transmit rest (snd (backend_write env b))"

text \<open>The envelopes sent are written to the backend and their ids logged.\<close>

definition emit :: "(int \<times> json) list \<Rightarrow> system \<Rightarrow> system" where
  "emit sent sys =
     sys\<lparr> transport := transmit sent (transport sys), issued := issued sys @ map fst sent \<rparr>"

text \<open>
  A test calls one of the response methods of the backend. When the method raises, only
  the backend has changed; when it hands a payload to the protocol, as \<^verbatim>\<open>_fire\<close> does
  with \<^verbatim>\<open>self.protocol.dataReceived\<close>, the protocol reacts and what it sends is written
  back to the backend.
\<close>

definition received :: "(exn + json) \<times> backend \<Rightarrow> system \<Rightarrow> system" where
  "received r sys =
     (case r of
        (Inl e, b) \<Rightarrow> sys\<lparr> transport := b \<rparr>
      | (Inr payload, b) \<Rightarrow>
          (let (sent, c) = dataReceived payload (proto sys)
           in emit sent
                (sys\<lparr> proto := c, transport := b, wire := wire sys @ [payload],
                     polls := polls sys @ map snd sent \<rparr>)))"

text \<open>
  The calls a test makes in a session: \<^verbatim>\<open>send\<close> and the start of the watch on the
  protocol, and \<^verbatim>\<open>response\<close>, \<^verbatim>\<open>error\<close>, \<^verbatim>\<open>responseWatchAll\<close>, \<^verbatim>\<open>responseDeltas\<close>
  and \<^verbatim>\<open>loseConnection\<close> on the backend.
\<close>

datatype event =
    Send call
  | WatchAll
  | Response json "int option"
  | Error request_error "int option"
  | ResponseWatchAll
  | ResponseDeltas "delta list"
  | LoseConnection

text \<open>
  One call of a session. \<^verbatim>\<open>loseConnection\<close> of the backend hands its reason to
  \<^verbatim>\<open>connectionLost\<close> of the protocol.
\<close>

fun step :: "event \<Rightarrow> system \<Rightarrow> system" where
  "step (Send c) sys = (let (sent, cl) = send c (proto sys) in emit [sent] (sys\<lparr> proto := cl \<rparr>))"
| "step WatchAll sys = (let (sent, cl) = watch_all (proto sys) in emit sent (sys\<lparr> proto := cl \<rparr>))"
| "step (Response resp rid) sys = received (response resp rid (transport sys)) sys"
| "step (Error exception rid) sys = received (error exception rid (transport sys)) sys"
| "step ResponseWatchAll sys = received (responseWatchAll (transport sys)) sys"
| "step (ResponseDeltas deltas) sys = received (responseDeltas deltas (transport sys)) sys"
| "step LoseConnection sys =
     (let (reason, b) = loseConnection (transport sys)
      in sys\<lparr> proto := connectionLost reason (proto sys), transport := b \<rparr>)"

text \<open>
  A session runs its calls in order. A call that raises leaves what it had changed, and
  the session goes on with the next call.
\<close>

fun run :: "event list \<Rightarrow> system \<Rightarrow> system" where
  "run [] sys = sys"
| "run (e # es) sys = run es (step e sys)"

text \<open>
  A reply to each request id, a response or an error, as the call a test makes on the
  backend for it.
\<close>

definition reply_event :: "(int \<Rightarrow> json + request_error) \<Rightarrow> int \<Rightarrow> event" where
  "reply_event a i =
     (case a i of
        Inl resp \<Rightarrow> Response resp (Some i)
      | Inr exception \<Rightarrow> Error exception (Some i))"

text \<open>
  Modelled from the spec: what the outcome of a request resolves with when the missing
  \<^verbatim>\<open>APIClientProtocol\<close> gets that reply (sections 3 and 4.1): the result of the
  response, or the message and code of the error.
\<close>

definition reply_outcome :: "(int \<Rightarrow> json + request_error) \<Rightarrow> int \<Rightarrow> outcome" where
  "reply_outcome a i =
     (case a i of
        Inl resp \<Rightarrow> Resolved resp
      | Inr exception \<Rightarrow>
          Rejected (exception_error exception) (Some (exception_code exception)))"

text \<open>
  Firing one payload at each id of a list, in the order of the list, through
  \<^verbatim>\<open>_fire\<close>; the run stops at the first exception.
\<close>

fun fire_each ::
  "(int \<Rightarrow> (string \<times> json) list) \<Rightarrow> int list \<Rightarrow> backend \<Rightarrow> (exn + json list) \<times> backend" where
  "fire_each f [] b = (Inr [], b)"
| "fire_each f (i # ids) b =
     (case fire (f i) (Some i) b of
        (Inl e, b') \<Rightarrow> (Inl e, b')
      | (Inr payload, b') \<Rightarrow>
          (case fire_each f ids b' of
             (Inl e, b'') \<Rightarrow> (Inl e, b'')
           | (Inr payloads, b'') \<Rightarrow> (Inr (payload # payloads), b'')))"


section \<open>Notions used in the proofs\<close>

text \<open>
  The store of Deferreds after the loop of \<^verbatim>\<open>_loseConnection\<close> over a list of pending
  requests: a Deferred of the list that had not been called holds \<^verbatim>\<open>ConnectionDone\<close>,
  every other one is as before.
\<close>

definition errbacked :: "fake_protocol \<Rightarrow> (request \<times> ref) list \<Rightarrow> ref \<Rightarrow> fired option" where
  "errbacked p reqs d =
     (if d \<in> snd ` set reqs \<and> deferreds p d = None then Some (Errback ConnectionDone)
      else deferreds p d)"

text \<open>What a reaction of the protocol may send: nothing, or one call under the next id.\<close>

definition at_most_one :: "client \<Rightarrow> (int \<times> json) list \<times> client \<Rightarrow> bool" where
  "at_most_one s r =
     (case r of (sent, s') \<Rightarrow>
        sent = [] \<and> next_id s' = next_id s
      \<or> (\<exists>c. sent = [(next_id s, encode (next_id s) c)]) \<and> next_id s' = next_id s + 1)"

text \<open>One step of a session gives out no id, or the next one.\<close>

definition advances :: "system \<Rightarrow> system \<Rightarrow> bool" where
  "advances sys sys' =
     (issued sys' = issued sys \<and> next_id (proto sys') = next_id (proto sys)
    \<or> issued sys' = issued sys @ [next_id (proto sys)]
        \<and> next_id (proto sys') = next_id (proto sys) + 1)"

text \<open>The ids given out so far increase and are below the next id.\<close>

definition ids_in_order :: "system \<Rightarrow> bool" where
  "ids_in_order sys =
     (sorted_wrt (<) (issued sys) \<and> (\<forall>i\<in>set (issued sys). i < next_id (proto sys)))"


text \<open>
  The pending requests of the fake protocol wait: their Deferreds are different objects
  that exist and have not been called.
\<close>

definition waiting :: "fake_protocol \<Rightarrow> bool" where
  "waiting p =
     (distinct (map snd (pending_requests p))
      \<and> (\<forall>d\<in>set (map snd (pending_requests p)). d < allocated p \<and> deferreds p d = None))"

text \<open>
  No request id is both in flight and resolved, or twice either, and all are below the
  next id.
\<close>

definition once :: "client \<Rightarrow> bool" where
  "once c =
     (distinct (in_flight c @ map fst (outcomes c))
      \<and> (\<forall>i\<in>set (in_flight c @ map fst (outcomes c)). i < next_id c))"

text \<open>The protocol has in flight what the backend has pending.\<close>

definition in_step :: "system \<Rightarrow> bool" where
  "in_step sys = (in_flight (proto sys) = pending (transport sys))"


section \<open>Properties of the backend\<close>

lemma fire_oldest:
  "pending b = r # rest \<Longrightarrow>
     fire payload None b =
       (Inr (JDict (dict_set payload ''RequestId'' (JInt r))), b\<lparr> pending := rest \<rparr>)"
  by (simp add: fire_def)

lemma fire_known:
  "r \<in> set (pending b) \<Longrightarrow>
     fire payload (Some r) b =
       (Inr (JDict (dict_set payload ''RequestId'' (JInt r))),
        b\<lparr> pending := remove1 r (pending b) \<rparr>)"
  by (simp add: fire_def)

lemma fire_unknown:
  "r \<notin> set (pending b) \<Longrightarrow> fire payload (Some r) b = (Inl ValueError, b)"
  by (simp add: fire_def)


text \<open>
  The loop of \<^verbatim>\<open>responseDeltas\<close> appends one formatted element per delta, in order, and
  it raises only where a delta has no formatter.
\<close>

lemma format_deltas_acc:
  "format_deltas b acc ds = Inr out \<Longrightarrow>
     \<exists>rs. out = acc @ rs \<and> map (format_delta b) ds = map Inr rs"
proof (induction ds arbitrary: acc)
  case Nil
  then show ?case by simp
next
  case (Cons d ds)
  from Cons.prems obtain r where r: "format_delta b d = Inr r"
    and rest: "format_deltas b (acc @ [r]) ds = Inr out"
    by (auto split: sum.splits)
  from Cons.IH [OF rest] obtain rs where "out = (acc @ [r]) @ rs"
    and "map (format_delta b) ds = map Inr rs" by blast
  with r have "out = acc @ (r # rs) \<and> map (format_delta b) (d # ds) = map Inr (r # rs)"
    by simp
  then show ?case by blast
qed

lemma format_deltas_total:
  "\<forall>d\<in>set ds. \<exists>j. format_delta b d = Inr j \<Longrightarrow> \<exists>out. format_deltas b acc ds = Inr out"
proof (induction ds arbitrary: acc)
  case Nil
  then show ?case by simp
next
  case (Cons d ds)
  then obtain j where "format_delta b d = Inr j" by auto
  with Cons show ?case by simp
qed

text \<open>
  C6. Batch order is preserved. When a request is pending and every delta of the list
  has a formatter, \<^verbatim>\<open>responseDeltas\<close> hands one payload to the protocol, addressed to the
  oldest pending id; its \<^verbatim>\<open>Deltas\<close> field is a list as long as the input whose i-th
  element is the formatted i-th delta.
\<close>

theorem responseDeltas_keeps_order:
  assumes "pending b = r # rest"
    and "\<forall>d\<in>set deltas. \<exists>j. format_delta b d = Inr j"
  shows "\<exists>rs. responseDeltas deltas b =
             (Inr (JDict [(''Response'', JDict [(''Deltas'', JList rs)]),
                          (''RequestId'', JInt r)]),
              b\<lparr> pending := rest \<rparr>)
           \<and> length rs = length deltas
           \<and> (\<forall>i<length deltas. format_delta b (deltas ! i) = Inr (rs ! i))"
proof -
  from format_deltas_total [OF assms(2)] obtain out where
    out: "format_deltas b [] deltas = Inr out" by blast
  from format_deltas_acc [OF out] have m: "map (format_delta b) deltas = map Inr out"
    by simp
  from m have len: "length out = length deltas"
    by (metis length_map)
  have nth: "format_delta b (deltas ! i) = Inr (out ! i)" if "i < length deltas" for i
  proof -
    have "map (format_delta b) deltas ! i = map Inr out ! i" using m by simp
    with that len show ?thesis by simp
  qed
  have "responseDeltas deltas b =
          (Inr (JDict [(''Response'', JDict [(''Deltas'', JList out)]),
                       (''RequestId'', JInt r)]),
           b\<lparr> pending := rest \<rparr>)"
    using out assms(1) by (simp add: responseDeltas_def response_def fire_oldest)
  with len nth show ?thesis by blast
qed

theorem responseDeltas_keeps_order_witness:
  "responseDeltas
     [Bare (Unit \<lparr> unit_name = JStr ''mysql/0'', unit_applicationName = JStr ''mysql'',
                   unit_charmURL = JStr ''cs:mysql-1'' \<rparr>),
      Pair (Machine \<lparr> machine_id = JStr ''0'', machine_instanceId = JStr ''i-123'',
                      machine_status = JStr ''started'' \<rparr>) ''remove'']
     (FakeAPIBackend 1\<lparr> pending := [3, 4] \<rparr>) =
     (Inr (JDict [(''Response'', JDict [(''Deltas'',
        JList [JList [JStr ''unit'', JStr ''change'',
                      JDict [(''Name'', JStr ''mysql/0''), (''Service'', JStr ''mysql''),
                             (''CharmURL'', JStr ''cs:mysql-1'')]],
               JList [JStr ''machine'', JStr ''remove'',
                      JDict [(''Id'', JStr ''0''), (''InstanceId'', JStr ''i-123''),
                             (''Status'', JStr ''started'')]]])]),
                  (''RequestId'', JInt 3)]),
      FakeAPIBackend 1\<lparr> pending := [4] \<rparr>)"
proof -
  let ?u = "Bare (Unit \<lparr> unit_name = JStr ''mysql/0'', unit_applicationName = JStr ''mysql'',
                   unit_charmURL = JStr ''cs:mysql-1'' \<rparr>)"
  let ?m = "Pair (Machine \<lparr> machine_id = JStr ''0'', machine_instanceId = JStr ''i-123'',
                      machine_status = JStr ''started'' \<rparr>) ''remove''"
  let ?b = "FakeAPIBackend 1\<lparr> pending := [3, 4] \<rparr>"
  have p: "pending ?b = 3 # [4]" by simp
  have k: "\<forall>d\<in>set [?u, ?m]. \<exists>j. format_delta ?b d = Inr j"
    by (simp add: format_delta_def)
  from responseDeltas_keeps_order [OF p k] obtain rs where
    r: "responseDeltas [?u, ?m] ?b =
          (Inr (JDict [(''Response'', JDict [(''Deltas'', JList rs)]), (''RequestId'', JInt 3)]),
           ?b\<lparr> pending := [4] \<rparr>)"
    and l: "length rs = length [?u, ?m]"
    and n: "\<forall>i<length [?u, ?m]. format_delta ?b ([?u, ?m] ! i) = Inr (rs ! i)"
    by blast
  from n have "format_delta ?b ?u = Inr (rs ! 0)" "format_delta ?b ?m = Inr (rs ! 1)"
    by (auto simp: nth_Cons')
  then have e: "rs ! 0 = formatUnitInfo ?b \<lparr> unit_name = JStr ''mysql/0'', unit_applicationName = JStr ''mysql'',
                   unit_charmURL = JStr ''cs:mysql-1'' \<rparr> ''change''"
      "rs ! 1 = formatMachineInfo ?b \<lparr> machine_id = JStr ''0'', machine_instanceId = JStr ''i-123'',
                      machine_status = JStr ''started'' \<rparr> ''remove''"
    by (simp_all add: format_delta_def)
  from l obtain x y where "rs = [x, y]"
    by (cases rs; cases "tl rs"; cases "tl (tl rs)") auto
  with e have "rs = [formatUnitInfo ?b \<lparr> unit_name = JStr ''mysql/0'', unit_applicationName = JStr ''mysql'',
                   unit_charmURL = JStr ''cs:mysql-1'' \<rparr> ''change'', formatMachineInfo ?b \<lparr> machine_id = JStr ''0'', machine_instanceId = JStr ''i-123'',
                      machine_status = JStr ''started'' \<rparr> ''remove'']" by simp
  with r show ?thesis
    by (simp add: formatUnitInfo_def formatMachineInfo_def)
qed

text \<open>
  C8. The tag of an application delta follows the version of the backend: \<^verbatim>\<open>service\<close>
  under version 1 and \<^verbatim>\<open>application\<close> under every other version, with the same verb,
  \<^verbatim>\<open>Name\<close> and \<^verbatim>\<open>CharmURL\<close> in both.
\<close>

theorem application_tag_follows_version:
  "(version b = 1 \<longrightarrow>
      formatJujuApplicationInfo b info verb =
        JList [JStr ''service'', JStr verb,
               JDict [(''Name'', application_name info),
                      (''CharmURL'', application_charmURL info)]])
   \<and> (version b \<noteq> 1 \<longrightarrow>
      formatJujuApplicationInfo b info verb =
        JList [JStr ''application'', JStr verb,
               JDict [(''Name'', application_name info),
                      (''CharmURL'', application_charmURL info)]])"
  by (simp add: formatJujuApplicationInfo_def)

theorem application_tag_follows_version_witness:
  "formatJujuApplicationInfo (FakeAPIBackend 1)
     \<lparr> application_name = JStr ''mysql'', application_charmURL = JStr ''cs:mysql-1'' \<rparr> ''change'' =
     JList [JStr ''service'', JStr ''change'',
            JDict [(''Name'', JStr ''mysql''), (''CharmURL'', JStr ''cs:mysql-1'')]]
   \<and> formatJujuApplicationInfo (FakeAPIBackend 2)
     \<lparr> application_name = JStr ''mysql'', application_charmURL = JStr ''cs:mysql-1'' \<rparr> ''change'' =
     JList [JStr ''application'', JStr ''change'',
            JDict [(''Name'', JStr ''mysql''), (''CharmURL'', JStr ''cs:mysql-1'')]]"
  using application_tag_follows_version
          [of "FakeAPIBackend 1"
              "\<lparr> application_name = JStr ''mysql'', application_charmURL = JStr ''cs:mysql-1'' \<rparr>"
              "''change''"]
        application_tag_follows_version
          [of "FakeAPIBackend 2"
              "\<lparr> application_name = JStr ''mysql'', application_charmURL = JStr ''cs:mysql-1'' \<rparr>"
              "''change''"]
  by (simp add: FakeAPIBackend_def)

text \<open>
  C9. With the request id omitted and a non-empty pending list, \<^verbatim>\<open>response\<close> and
  \<^verbatim>\<open>error\<close> address their payload to the first, oldest, pending id, and exactly that
  id leaves the pending list.
\<close>

theorem omitted_id_fires_oldest:
  assumes "pending b = r # rest"
  shows "response resp None b =
           (Inr (JDict [(''Response'', resp), (''RequestId'', JInt r)]), b\<lparr> pending := rest \<rparr>)
       \<and> error exception None b =
           (Inr (JDict [(''Error'', exception_error exception),
                        (''ErrorCode'', exception_code exception),
                        (''RequestId'', JInt r)]),
            b\<lparr> pending := rest \<rparr>)"
  using assms by (simp add: response_def error_def fire_oldest)

theorem omitted_id_fires_oldest_witness:
  "fst (response (JStr ''ok'') None (FakeAPIBackend 1\<lparr> pending := [4, 5, 6] \<rparr>)) =
     Inr (JDict [(''Response'', JStr ''ok''), (''RequestId'', JInt 4)])
   \<and> pending (snd (response (JStr ''ok'') None (FakeAPIBackend 1\<lparr> pending := [4, 5, 6] \<rparr>))) = [5, 6]
   \<and> fst (error \<lparr> exception_error = JStr ''no'', exception_code = JStr ''bad'' \<rparr> None
             (FakeAPIBackend 1\<lparr> pending := [4, 5, 6] \<rparr>)) =
     Inr (JDict [(''Error'', JStr ''no''), (''ErrorCode'', JStr ''bad''), (''RequestId'', JInt 4)])
   \<and> pending (snd (error \<lparr> exception_error = JStr ''no'', exception_code = JStr ''bad'' \<rparr> None
             (FakeAPIBackend 1\<lparr> pending := [4, 5, 6] \<rparr>))) = [5, 6]"
proof -
  have p: "pending (FakeAPIBackend 1\<lparr> pending := [4, 5, 6] \<rparr>) = 4 # [5, 6]" by simp
  show ?thesis
    using omitted_id_fires_oldest [OF p, of "JStr ''ok''"
        "\<lparr> exception_error = JStr ''no'', exception_code = JStr ''bad'' \<rparr>"]
    by simp
qed

text \<open>
  C4, as the claim states it, fails on the backend: a response or an error for an id that
  was never written, or that has been fired already, raises ValueError out of
  \<^verbatim>\<open>_fire\<close>.
\<close>

theorem unknown_id_raises_counterexample:
  "fst (response (JStr ''late'') (Some 7) (FakeAPIBackend 1\<lparr> pending := [1] \<rparr>)) = Inl ValueError
   \<and> fst (response (JStr ''again'') (Some 1)
            (snd (response (JStr ''first'') (Some 1) (FakeAPIBackend 1\<lparr> pending := [1] \<rparr>)))) =
       Inl ValueError
   \<and> fst (error \<lparr> exception_error = JStr ''no'', exception_code = JStr ''bad'' \<rparr> (Some 7)
            (FakeAPIBackend 1\<lparr> pending := [1] \<rparr>)) = Inl ValueError"
  by (simp add: response_def error_def fire_def)

text \<open>
  Firing a list of ids that are all pending, with multiplicity, succeeds: each payload
  goes out under its own id, in the order of the list, and the ids fired leave the
  pending list.
\<close>

lemma fire_each_mset:
  "mset ids \<subseteq># mset (pending b) \<Longrightarrow>
     \<exists>left. fire_each f ids b =
              (Inr (map (\<lambda>i. JDict (dict_set (f i) ''RequestId'' (JInt i))) ids),
               b\<lparr> pending := left \<rparr>)
          \<and> mset left = mset (pending b) - mset ids"
proof (induction ids arbitrary: b)
  case Nil
  show ?case by (intro exI [of _ "pending b"]) simp
next
  case (Cons i ids)
  let ?b = "b\<lparr> pending := remove1 i (pending b) \<rparr>"
  from Cons.prems have i: "i \<in> set (pending b)"
    by (metis mset_subset_eqD list.set_intros(1) set_mset_mset)
  from Cons.prems have "mset ids \<subseteq># mset (pending ?b)"
    by (simp add: insert_subset_eq_iff)
  from Cons.IH [OF this] obtain left where
    l: "fire_each f ids ?b =
          (Inr (map (\<lambda>i. JDict (dict_set (f i) ''RequestId'' (JInt i))) ids),
           ?b\<lparr> pending := left \<rparr>)"
    and m: "mset left = mset (pending ?b) - mset ids" by blast
  from i l have "fire_each f (i # ids) b =
          (Inr (map (\<lambda>i. JDict (dict_set (f i) ''RequestId'' (JInt i))) (i # ids)),
           b\<lparr> pending := left \<rparr>)"
    by (simp add: fire_known)
  moreover from m have "mset left = mset (pending b) - mset (i # ids)"
    by (simp add: diff_diff_add_mset [symmetric])
  ultimately show ?case by blast
qed


lemma fire_each_rest:
  assumes "mset (before @ after) = mset (pending b)" and "i \<notin> set after"
  shows "fire payload (Some i) (snd (fire_each f before b)) =
           (Inl ValueError, snd (fire_each f before b))"
proof -
  from assms(1) have "mset before \<subseteq># mset (pending b)"
    by (metis mset_append mset_subset_eq_add_left)
  from fire_each_mset [OF this, of f] obtain left where
    l: "fire_each f before b =
          (Inr (map (\<lambda>i. JDict (dict_set (f i) ''RequestId'' (JInt i))) before),
           b\<lparr> pending := left \<rparr>)"
    and m: "mset left = mset (pending b) - mset before" by blast
  from m assms(1) have "mset left = mset after"
    by (metis add_diff_cancel_left' mset_append)
  then have "set left = set after" by (rule mset_eq_setD)
  with assms(2) show ?thesis by (simp add: l fire_unknown)
qed

lemma fire_each_all:
  assumes "mset ids = mset (pending b)"
  shows "fire_each f ids b =
           (Inr (map (\<lambda>i. JDict (dict_set (f i) ''RequestId'' (JInt i))) ids),
            b\<lparr> pending := [] \<rparr>)"
proof -
  from assms have "mset ids \<subseteq># mset (pending b)" by simp
  from fire_each_mset [OF this, of f] assms show ?thesis by auto
qed


section \<open>Properties of the fake protocol\<close>

text \<open>
  The loop of \<^verbatim>\<open>_loseConnection\<close> never raises, since it fires only Deferreds that have
  not been called; the call of \<^verbatim>\<open>disconnected\<close> after it raises when that Deferred
  has been called before. A second \<^verbatim>\<open>_loseConnection\<close> finds it called.
\<close>

lemma errback_pending_result:
  "errback_pending reqs p = (Inr (), p\<lparr> deferreds := errbacked p reqs \<rparr>)"
proof (induction reqs arbitrary: p)
  case Nil
  have "errbacked p [] = deferreds p" by (rule ext) (simp add: errbacked_def)
  then show ?case by simp
next
  case (Cons x reqs)
  obtain req d where x: "x = (req, d)" by (cases x)
  show ?case
  proof (cases "deferreds p d = None")
    case True
    let ?p' = "p\<lparr> deferreds := (deferreds p)(d \<mapsto> Errback ConnectionDone) \<rparr>"
    have "errbacked ?p' reqs = errbacked p (x # reqs)"
      using True x by (intro ext) (auto simp: errbacked_def)
    with True x Cons.IH [of ?p'] show ?thesis
      by (simp add: called_def errback_def fire_deferred_def)
  next
    case False
    have "errbacked p reqs = errbacked p (x # reqs)"
      using False x by (intro ext) (auto simp: errbacked_def)
    with False x Cons.IH [of p] show ?thesis
      by (simp add: called_def)
  qed
qed

lemma protocol_loseConnection_result:
  "protocol_loseConnection p =
     (if errbacked p (pending_requests p) (disconnected p) \<noteq> None
      then (Inl AlreadyCalledError,
            p\<lparr> protocol_connected := False, deferreds := errbacked p (pending_requests p) \<rparr>)
      else (Inr (),
            p\<lparr> protocol_connected := False,
               deferreds := (errbacked p (pending_requests p))(disconnected p \<mapsto> Callback JNull) \<rparr>))"
proof -
  have e: "errbacked (p\<lparr> protocol_connected := False \<rparr>) reqs = errbacked p reqs" for reqs
    by (rule ext) (simp add: errbacked_def)
  show ?thesis
    by (simp add: protocol_loseConnection_def errback_pending_result e callback_def
        fire_deferred_def called_def)
qed

lemma protocol_loseConnection_fields:
  "protocol_connected (snd (protocol_loseConnection p)) = False"
  "pending_requests (snd (protocol_loseConnection p)) = pending_requests p"
  "disconnected (snd (protocol_loseConnection p)) = disconnected p"
  by (simp_all add: protocol_loseConnection_result)

lemma protocol_loseConnection_deferreds:
  "deferreds (snd (protocol_loseConnection p)) d =
     (if d = disconnected p \<and> errbacked p (pending_requests p) d = None
      then Some (Callback JNull)
      else errbacked p (pending_requests p) d)"
  by (auto simp: protocol_loseConnection_result)

lemma protocol_loseConnection_twice:
  "protocol_loseConnection (snd (protocol_loseConnection p)) =
     (Inl AlreadyCalledError, snd (protocol_loseConnection p))"
proof -
  let ?q = "snd (protocol_loseConnection p)"
  have "errbacked ?q (pending_requests ?q) d = deferreds ?q d" for d
  proof (cases "deferreds ?q d = None")
    case True
    then have "d \<notin> snd ` set (pending_requests p)"
      by (auto simp: protocol_loseConnection_deferreds errbacked_def split: if_splits)
    with True show ?thesis
      by (auto simp: errbacked_def [of ?q] protocol_loseConnection_fields)
  next
    case False
    then show ?thesis by (simp add: errbacked_def [of ?q])
  qed
  then have e: "errbacked ?q (pending_requests ?q) = deferreds ?q" by (intro ext)
  have c: "deferreds ?q (disconnected ?q) \<noteq> None"
    by (simp add: protocol_loseConnection_fields protocol_loseConnection_deferreds)
  have "?q\<lparr> protocol_connected := False, deferreds := deferreds ?q \<rparr> = ?q"
    by (simp add: protocol_loseConnection_fields)
  with c e show ?thesis
    by (simp add: protocol_loseConnection_result [of ?q])
qed

text \<open>
  In a test that does not lose the connection the pending requests wait, so replies that
  answer the oldest pending requests in order reach one Deferred each.
\<close>

lemma waiting_initial: "waiting FakeAPIClientProtocol"
  by (simp add: waiting_def FakeAPIClientProtocol_def)

lemma waiting_sendRequest:
  "waiting p \<Longrightarrow> waiting (snd (sendRequest entityType requestInfo entityId params facade_version p))"
  by (auto simp: waiting_def sendRequest_def Deferred_def errback_def callback_def
      fire_deferred_def called_def Let_def less_Suc_eq split: list.splits)

lemma waiting_deliver_reply: "waiting p \<Longrightarrow> waiting (snd (deliver_reply x p))"
  by (cases x)
    (auto simp: waiting_def protocol_response_def protocol_error_def errback_def callback_def
      fire_deferred_def called_def Let_def rev_image_eqI split: list.splits)

lemma waiting_run:
  "waiting p \<Longrightarrow> LoseTransport \<notin> set cs \<Longrightarrow> waiting (protocol_run cs p)"
proof (induction cs arbitrary: p)
  case Nil
  then show ?case by simp
next
  case (Cons c cs)
  from Cons.prems have "waiting (protocol_step c p)"
    by (cases c) (simp_all add: waiting_sendRequest waiting_deliver_reply)
  with Cons show ?case by simp
qed

lemma deliver_reply_head:
  assumes "pending_requests p = (r, d) # rest" and "answers x r" and "deferreds p d = None"
  shows "deliver_reply x p =
           (Inr (), p\<lparr> pending_requests := rest, deferreds := (deferreds p)(d \<mapsto> result_of x) \<rparr>)"
  using assms
  by (cases x)
    (auto simp: protocol_response_def protocol_error_def errback_def callback_def
      fire_deferred_def called_def Let_def)

lemma deliver_replies_in_order:
  assumes "list_all2 answers xs (map fst reqs)"
    and "pending_requests p = reqs @ later"
    and "distinct (map snd reqs)"
    and "\<forall>d\<in>set (map snd reqs). deferreds p d = None"
  shows "deliver_replies xs p =
           (Inr (), p\<lparr> pending_requests := later,
                        deferreds := deferreds p ++ map_of (zip (map snd reqs) (map result_of xs)) \<rparr>)"
  using assms
proof (induction xs arbitrary: reqs p)
  case Nil
  then show ?case by simp
next
  case (Cons x xs)
  from Cons.prems(1) obtain r d rest where reqs: "reqs = (r, d) # rest"
    and x: "answers x r" and xs: "list_all2 answers xs (map fst rest)"
    by (cases reqs) auto
  let ?p = "p\<lparr> pending_requests := rest @ later, deferreds := (deferreds p)(d \<mapsto> result_of x) \<rparr>"
  from Cons.prems reqs have d: "deferreds p d = None" and nd: "d \<notin> set (map snd rest)"
    by auto
  from Cons.prems(2) reqs x d have one: "deliver_reply x p = (Inr (), ?p)"
    by (simp add: deliver_reply_head)
  have "deliver_replies xs ?p =
          (Inr (), ?p\<lparr> pending_requests := later,
                         deferreds := deferreds ?p ++ map_of (zip (map snd rest) (map result_of xs)) \<rparr>)"
    using Cons.prems(3,4) reqs nd by (intro Cons.IH [OF xs]) auto
  moreover from nd xs have "d \<notin> dom (map_of (zip (map snd rest) (map result_of xs)))"
    by (auto dest!: map_of_SomeD set_zip_leftD)
  then have "deferreds ?p ++ map_of (zip (map snd rest) (map result_of xs)) =
      deferreds p ++ map_of (zip (map snd reqs) (map result_of (x # xs)))"
    by (simp add: reqs map_add_upd_left)
  ultimately show ?case by (simp add: one)
qed

text \<open>
  A Deferred that has been called keeps its result through every call on the protocol.
\<close>

lemma kept_sendRequest:
  assumes "deferreds p d = Some x" and "d < allocated p"
  shows "deferreds (snd (sendRequest entityType requestInfo entityId params facade_version p)) d
           = Some x
       \<and> d < allocated (snd (sendRequest entityType requestInfo entityId params facade_version p))"
  using assms
  by (auto simp: sendRequest_def Deferred_def errback_def callback_def fire_deferred_def
      called_def Let_def split: list.splits)

lemma kept_deliver_reply:
  assumes "deferreds p d = Some x"
  shows "deferreds (snd (deliver_reply r p)) d = Some x
       \<and> allocated (snd (deliver_reply r p)) = allocated p"
  using assms
  by (cases r)
    (auto simp: protocol_response_def protocol_error_def errback_def callback_def
      fire_deferred_def called_def Let_def split: list.splits)

lemma kept_loseConnection:
  assumes "deferreds p d = Some x"
  shows "deferreds (snd (protocol_loseConnection p)) d = Some x
       \<and> allocated (snd (protocol_loseConnection p)) = allocated p"
  using assms
  by (auto simp: protocol_loseConnection_result errbacked_def)

lemma kept_step:
  assumes "deferreds p d = Some x" and "d < allocated p"
  shows "deferreds (protocol_step c p) d = Some x \<and> d < allocated (protocol_step c p)"
proof (cases c)
  case (SendRequest entityType requestInfo entityId params facade_version)
  with kept_sendRequest [OF assms] show ?thesis by simp
next
  case (Deliver r)
  with kept_deliver_reply [OF assms(1), of r] assms(2) show ?thesis by simp
next
  case LoseTransport
  with kept_loseConnection [OF assms(1)] assms(2) show ?thesis by simp
qed

lemma kept_run:
  "deferreds p d = Some x \<Longrightarrow> d < allocated p \<Longrightarrow> deferreds (protocol_run cs p) d = Some x"
proof (induction cs arbitrary: p)
  case Nil
  then show ?case by simp
next
  case (Cons c cs)
  from kept_step [OF Cons.prems, of c] Cons.IH [of "protocol_step c p"] show ?case by simp
qed

lemma fire_deferred_called:
  "called p d \<Longrightarrow>
     callback d content p = (Inl AlreadyCalledError, p)
   \<and> errback d reason p = (Inl AlreadyCalledError, p)"
  by (simp add: callback_def errback_def fire_deferred_def)

lemma protocol_response_mismatch:
  "pending_requests p = (r, d) # rest \<Longrightarrow> \<not> answers (Respond entityType request content) r \<Longrightarrow>
     protocol_response entityType request content p =
       (Inl AssertionError, p\<lparr> pending_requests := rest \<rparr>)"
  by (auto simp: protocol_response_def Let_def)

lemma deliver_replies_waiting:
  assumes "LoseTransport \<notin> set cs"
    and "pending_requests (protocol_run cs FakeAPIClientProtocol) = reqs @ later"
    and "list_all2 answers xs (map fst reqs)"
  shows "deliver_replies xs (protocol_run cs FakeAPIClientProtocol) =
           (Inr (), (protocol_run cs FakeAPIClientProtocol)
              \<lparr> pending_requests := later,
                deferreds := deferreds (protocol_run cs FakeAPIClientProtocol)
                             ++ map_of (zip (map snd reqs) (map result_of xs)) \<rparr>)"
    and "\<forall>k<length reqs.
           (deferreds (protocol_run cs FakeAPIClientProtocol)
            ++ map_of (zip (map snd reqs) (map result_of xs))) (snd (reqs ! k)) =
             Some (result_of (xs ! k))"
proof -
  let ?p = "protocol_run cs FakeAPIClientProtocol"
  from waiting_run [OF waiting_initial assms(1)] have "waiting ?p" .
  with assms(2) have d: "distinct (map snd reqs)"
    and u: "\<forall>d\<in>set (map snd reqs). deferreds ?p d = None"
    by (auto simp: waiting_def)
  from assms(3) assms(2) d u
  show "deliver_replies xs ?p =
          (Inr (), ?p\<lparr> pending_requests := later,
             deferreds := deferreds ?p ++ map_of (zip (map snd reqs) (map result_of xs)) \<rparr>)"
    by (rule deliver_replies_in_order)
  from assms(3) have l: "length xs = length reqs"
    by (auto dest: list_all2_lengthD)
  show "\<forall>k<length reqs.
          (deferreds ?p ++ map_of (zip (map snd reqs) (map result_of xs))) (snd (reqs ! k)) =
            Some (result_of (xs ! k))"
  proof (intro allI impI)
    fix k
    assume k: "k < length reqs"
    with l d have "map_of (zip (map snd reqs) (map result_of xs)) (map snd reqs ! k) =
        Some (map result_of xs ! k)"
      by (intro map_of_zip_nth) simp_all
    with k l show "(deferreds ?p ++ map_of (zip (map snd reqs) (map result_of xs)))
        (snd (reqs ! k)) = Some (result_of (xs ! k))"
      by simp
  qed
qed

text \<open>
  C10. With no pending request, \<^verbatim>\<open>error\<close> and \<^verbatim>\<open>response\<close> of the fake protocol
  queue their outcome. The next \<^verbatim>\<open>sendRequest\<close> returns a new Deferred that has been
  fired from the queues: with a queued error, whatever the queue of responses holds;
  with a queued response for the same entity type and request only when no error is
  queued. The request becomes pending only when both queues are empty.
\<close>

theorem queued_outcomes_fire_on_next_request:
  "(pending_requests p = [] \<longrightarrow>
      protocol_error reason p = (Inr (), p\<lparr> queued_errors := queued_errors p @ [reason] \<rparr>)
    \<and> protocol_response entityType requestInfo content p =
        (Inr (), p\<lparr> queued_responses :=
                       queued_responses p @ [(entityType, requestInfo, content)] \<rparr>))
   \<and> (queued_errors p = reason # errors \<longrightarrow>
      sendRequest entityType requestInfo entityId params facade_version p =
        (Inr (allocated p),
         p\<lparr> queued_errors := errors,
            deferreds := (deferreds p)(allocated p \<mapsto> Errback reason),
            allocated := Suc (allocated p) \<rparr>))
   \<and> (queued_errors p = [] \<and> queued_responses p = (entityType, requestInfo, content) # responses \<longrightarrow>
      sendRequest entityType requestInfo entityId params facade_version p =
        (Inr (allocated p),
         p\<lparr> queued_responses := responses,
            deferreds := (deferreds p)(allocated p \<mapsto> Callback content),
            allocated := Suc (allocated p) \<rparr>))
   \<and> (queued_errors p = [] \<and> queued_responses p = [] \<longrightarrow>
      sendRequest entityType requestInfo entityId params facade_version p =
        (Inr (allocated p),
         p\<lparr> pending_requests := pending_requests p @
              [((entityType, requestInfo, entityId, params, facade_version), allocated p)],
            deferreds := (deferreds p)(allocated p := None),
            allocated := Suc (allocated p) \<rparr>))
   \<and> (pending_requests (snd (sendRequest entityType requestInfo entityId params facade_version p))
        \<noteq> pending_requests p \<longrightarrow> queued_errors p = [] \<and> queued_responses p = [])"
  by (auto simp: protocol_error_def protocol_response_def sendRequest_def Deferred_def
      errback_def callback_def fire_deferred_def called_def Let_def split: list.splits)

theorem queued_outcomes_fire_on_next_request_witness:
  "protocol_error (Reason ''boom'') FakeAPIClientProtocol =
     (Inr (), FakeAPIClientProtocol\<lparr> queued_errors := [Reason ''boom''] \<rparr>)
   \<and> protocol_response ''Client'' ''WatchAll'' (JStr ''1'') FakeAPIClientProtocol =
     (Inr (), FakeAPIClientProtocol\<lparr> queued_responses := [(''Client'', ''WatchAll'', JStr ''1'')] \<rparr>)
   \<and> sendRequest ''Client'' ''WatchAll'' None None 1
       (FakeAPIClientProtocol\<lparr> queued_errors := [Reason ''boom''],
          queued_responses := [(''Client'', ''WatchAll'', JStr ''1'')] \<rparr>) =
     (Inr 1,
      FakeAPIClientProtocol\<lparr> queued_errors := [],
          queued_responses := [(''Client'', ''WatchAll'', JStr ''1'')],
          deferreds := (\<lambda>_. None)(1 \<mapsto> Errback (Reason ''boom'')), allocated := 2 \<rparr>)
   \<and> sendRequest ''Client'' ''WatchAll'' None None 1
       (FakeAPIClientProtocol\<lparr> queued_responses := [(''Client'', ''WatchAll'', JStr ''1'')] \<rparr>) =
     (Inr 1,
      FakeAPIClientProtocol\<lparr> queued_responses := [],
          deferreds := (\<lambda>_. None)(1 \<mapsto> Callback (JStr ''1'')), allocated := 2 \<rparr>)
   \<and> sendRequest ''Client'' ''WatchAll'' None None 1 FakeAPIClientProtocol =
     (Inr 1,
      FakeAPIClientProtocol\<lparr> pending_requests := [((''Client'', ''WatchAll'', None, None, 1), 1)],
          allocated := 2 \<rparr>)"
  using queued_outcomes_fire_on_next_request
          [of FakeAPIClientProtocol "Reason ''boom''" "''Client''" "''WatchAll''" "JStr ''1''"]
        queued_outcomes_fire_on_next_request
          [of "FakeAPIClientProtocol\<lparr> queued_errors := [Reason ''boom''],
                 queued_responses := [(''Client'', ''WatchAll'', JStr ''1'')] \<rparr>"
              "Reason ''boom''" "''Client''" "''WatchAll''" "JStr ''1''" "[]" None None 1]
        queued_outcomes_fire_on_next_request
          [of "FakeAPIClientProtocol\<lparr> queued_responses := [(''Client'', ''WatchAll'', JStr ''1'')] \<rparr>"
              "Reason ''boom''" "''Client''" "''WatchAll''" "JStr ''1''" "[]" None None 1 "[]"]
        queued_outcomes_fire_on_next_request
          [of FakeAPIClientProtocol "Reason ''boom''" "''Client''" "''WatchAll''" "JStr ''1''"
              "[]" None None 1]
  by (simp add: FakeAPIClientProtocol_def)

text \<open>
  C5. Closing is not idempotent in \<^verbatim>\<open>FakeAPIClientProtocol\<close>. With one request pending,
  the first \<^verbatim>\<open>_loseConnection\<close> returns and fires \<^verbatim>\<open>ConnectionDone\<close> at the pending
  Deferred; the second one fires nothing new, since its loop skips the Deferreds that
  have been called, and then raises AlreadyCalledError on \<^verbatim>\<open>disconnected\<close>, which is
  called without that check.
\<close>

theorem second_close_raises:
  "fst (protocol_loseConnection
          (snd (sendRequest ''Client'' ''WatchAll'' None None 1 FakeAPIClientProtocol))) = Inr ()
   \<and> deferreds (snd (protocol_loseConnection
          (snd (sendRequest ''Client'' ''WatchAll'' None None 1 FakeAPIClientProtocol)))) 1 =
       Some (Errback ConnectionDone)
   \<and> protocol_loseConnection (snd (protocol_loseConnection
          (snd (sendRequest ''Client'' ''WatchAll'' None None 1 FakeAPIClientProtocol)))) =
       (Inl AlreadyCalledError,
        snd (protocol_loseConnection
          (snd (sendRequest ''Client'' ''WatchAll'' None None 1 FakeAPIClientProtocol))))"
proof -
  have s: "sendRequest ''Client'' ''WatchAll'' None None 1 FakeAPIClientProtocol =
     (Inr 1, FakeAPIClientProtocol
        \<lparr> pending_requests := [((''Client'', ''WatchAll'', None, None, 1), 1)],
          allocated := 2 \<rparr>)"
    by (simp add: sendRequest_def Deferred_def FakeAPIClientProtocol_def)
  show ?thesis
    unfolding protocol_loseConnection_twice s
    by (simp add: protocol_loseConnection_result errbacked_def FakeAPIClientProtocol_def)
qed


section \<open>Properties of the protocol above the backend\<close>

lemma backend_write_encode:
  "backend_write (encode r c) b =
     (Inr (), b\<lparr> pending := pending b @ [r], requests := (requests b)(r \<mapsto> encode r c) \<rparr>)"
  by (simp add: backend_write_def encode_def)

lemma next_batch_one: "at_most_one s (next_batch h s)"
  by (auto simp: at_most_one_def next_batch_def send_def)

lemma next_batch_one': "next_id s0 = next_id s \<Longrightarrow> at_most_one s0 (next_batch h s)"
  using next_batch_one [of s h] by (simp add: at_most_one_def)

lemma watch_all_one: "at_most_one s (watch_all s)"
  by (auto simp: at_most_one_def watch_all_def send_def)

lemma watcher_step_one: "at_most_one s (watcher_step rid out s)"
  by (auto simp: watcher_step_def at_most_one_def [of s "([], _)"] next_batch_one'
      split: watcher.splits outcome.splits option.splits json.splits)

lemma settle_next_id: "next_id (snd (settle rid out s)) = next_id s"
  by (simp add: settle_def)

lemma deliver_one: "at_most_one s (deliver rid out s)"
proof (cases "settle rid out s")
  case (Pair ok s')
  with settle_next_id [of rid out s] have n: "next_id s' = next_id s" by simp
  show ?thesis
  proof (cases ok)
    case True
    with Pair watcher_step_one [of s' rid out] n show ?thesis
      by (simp add: deliver_def at_most_one_def)
  next
    case False
    with Pair n show ?thesis by (simp add: deliver_def at_most_one_def)
  qed
qed

lemma dataReceived_one: "at_most_one s (dataReceived payload s)"
  by (cases "decode payload") (simp_all add: dataReceived_def deliver_one, simp add: at_most_one_def)


lemma emit_advances:
  assumes "at_most_one (proto sys) (sent, proto sys1)" and "issued sys1 = issued sys"
  shows "advances sys (emit sent sys1)"
  using assms by (auto simp: at_most_one_def emit_def advances_def)

lemma received_advances: "advances sys (received r sys)"
proof (cases r)
  case (Pair res b)
  show ?thesis
  proof (cases res)
    case (Inl e)
    with Pair show ?thesis by (simp add: received_def advances_def)
  next
    case (Inr payload)
    obtain sent c where d: "dataReceived payload (proto sys) = (sent, c)"
      by (cases "dataReceived payload (proto sys)")
    with dataReceived_one [of "proto sys" payload]
    have a: "at_most_one (proto sys) (sent, c)" by simp
    let ?sys1 = "sys\<lparr> proto := c, transport := b, wire := wire sys @ [payload],
                      polls := polls sys @ map snd sent \<rparr>"
    have "advances sys (emit sent ?sys1)"
      using a by (intro emit_advances) simp_all
    moreover have "received r sys = emit sent ?sys1"
      using Pair Inr d by (simp add: received_def)
    ultimately show ?thesis by simp
  qed
qed

lemma step_advances: "advances sys (step e sys)"
proof (cases e)
  case (Send c)
  have "at_most_one (proto sys) ([fst (send c (proto sys))], snd (send c (proto sys)))"
    by (auto simp: at_most_one_def send_def)
  then have "advances sys (emit [fst (send c (proto sys))] (sys\<lparr> proto := snd (send c (proto sys)) \<rparr>))"
    by (intro emit_advances) simp_all
  with Send show ?thesis
    by (simp add: split_beta)
next
  case WatchAll
  have "at_most_one (proto sys) (fst (watch_all (proto sys)), snd (watch_all (proto sys)))"
    using watch_all_one [of "proto sys"] by simp
  then have "advances sys (emit (fst (watch_all (proto sys))) (sys\<lparr> proto := snd (watch_all (proto sys)) \<rparr>))"
    by (intro emit_advances) simp_all
  with WatchAll show ?thesis
    by (simp add: split_beta)
next
  case LoseConnection
  then show ?thesis
    by (simp add: advances_def connectionLost_def split_beta)
qed (simp_all add: received_advances)


lemma advances_in_order:
  "ids_in_order sys \<Longrightarrow> advances sys sys' \<Longrightarrow> ids_in_order sys'"
  by (fastforce simp: ids_in_order_def advances_def sorted_wrt_append)

lemma run_in_order: "ids_in_order sys \<Longrightarrow> ids_in_order (run evs sys)"
proof (induction evs arbitrary: sys)
  case Nil
  then show ?case by simp
next
  case (Cons e evs)
  from Cons.prems step_advances [of sys e] have "ids_in_order (step e sys)"
    by (rule advances_in_order)
  then show ?case by (simp add: Cons.IH)
qed

lemma connect_in_order: "ids_in_order (connect v calls)"
  by (simp add: ids_in_order_def connect_def)

lemma step_Send:
  "issued (step (Send c) sys) = issued sys @ [next_id (proto sys)]"
  "pending (transport (step (Send c) sys)) = pending (transport sys) @ [next_id (proto sys)]"
  "next_id (proto (step (Send c) sys)) = next_id (proto sys) + 1"
  by (simp_all add: send_def emit_def backend_write_encode)

lemma run_Sends:
  "issued (run (map Send cs) sys) =
     issued sys @ [next_id (proto sys) .. next_id (proto sys) + int (length cs) - 1]
   \<and> pending (transport (run (map Send cs) sys)) =
     pending (transport sys) @ [next_id (proto sys) .. next_id (proto sys) + int (length cs) - 1]"
proof (induction cs arbitrary: sys)
  case Nil
  then show ?case by simp
next
  case (Cons c cs)
  let ?n = "next_id (proto sys)"
  have "[?n .. ?n + int (length (c # cs)) - 1] = ?n # [?n + 1 .. ?n + 1 + int (length cs) - 1]"
    by (subst upto_rec1) (simp_all add: add.commute add.left_commute)
  with Cons.IH [of "step (Send c) sys"] show ?case
    by (simp add: step_Send del: step.simps)
qed

lemmas session_defs =
  connect_def APIClientProtocol_def FakeAPIBackend_def watch_all_def send_def emit_def
  backend_write_encode received_def responseWatchAll_def response_def fire_def
  dataReceived_def decode_def deliver_def settle_def watcher_step_def next_batch_def
  responseDeltas_def format_delta_def formatMachineInfo_def decode_batch_def
  List.map_filter_def decode_kind_def decode_verb_def connectionLost_def loseConnection_def

text \<open>
  C1. Request ids are distinct and increase in the order of issue. After any session on
  a new connection, N calls of \<^verbatim>\<open>send\<close> in a row get the next N consecutive ids,
  which \<^verbatim>\<open>FakeAPIBackend.write\<close> appends to its pending list in that order; the ids
  given out over the whole life of the connection are strictly increasing, hence pairwise
  distinct and never reused; and the first id is 1.
\<close>

theorem request_ids_never_collide:
  "issued (run (map Send cs) (run evs (connect v calls))) =
     issued (run evs (connect v calls))
     @ [next_id (proto (run evs (connect v calls))) ..
        next_id (proto (run evs (connect v calls))) + int (length cs) - 1]
   \<and> pending (transport (run (map Send cs) (run evs (connect v calls)))) =
     pending (transport (run evs (connect v calls)))
     @ [next_id (proto (run evs (connect v calls))) ..
        next_id (proto (run evs (connect v calls))) + int (length cs) - 1]
   \<and> sorted_wrt (<) (issued (run (map Send cs) (run evs (connect v calls))))
   \<and> distinct (issued (run (map Send cs) (run evs (connect v calls))))
   \<and> issued (run (map Send cs) (connect v calls)) = [1 .. int (length cs)]"
proof -
  let ?s = "run evs (connect v calls)"
  have "ids_in_order (run (map Send cs) ?s)"
    by (intro run_in_order connect_in_order)
  then have o: "sorted_wrt (<) (issued (run (map Send cs) ?s))"
    by (simp add: ids_in_order_def)
  then have d: "distinct (issued (run (map Send cs) ?s))"
    by (simp add: strict_sorted_iff)
  have "issued (run (map Send cs) (connect v calls)) = [1 .. int (length cs)]"
    using run_Sends [of cs "connect v calls"]
    by (simp add: connect_def APIClientProtocol_def)
  with o d run_Sends [of cs ?s] show ?thesis by simp
qed

theorem request_ids_never_collide_witness:
  "issued (run (map Send
       [\<lparr> call_entityType = ''Client'', call_requestName = ''ServiceGet'',
          call_entityId = None, call_parameters = None, call_facadeVersion = 1 \<rparr>,
        \<lparr> call_entityType = ''Client'', call_requestName = ''SetAnnotations'',
          call_entityId = None, call_parameters = Some (JDict []), call_facadeVersion = 1 \<rparr>,
        \<lparr> call_entityType = ''Admin'', call_requestName = ''Login'',
          call_entityId = None, call_parameters = None, call_facadeVersion = 2 \<rparr>])
     (run [Send \<lparr> call_entityType = ''Client'', call_requestName = ''ServiceGet'',
                   call_entityId = None, call_parameters = None, call_facadeVersion = 1 \<rparr>,
           Response (JStr ''x'') (Some 1)]
        (connect 1
          (\<lparr> call_entityType = ''Client'', call_requestName = ''WatchAll'',
             call_entityId = None, call_parameters = None, call_facadeVersion = 1 \<rparr>,
           \<lparr> call_entityType = ''AllWatcher'', call_requestName = ''Next'',
             call_entityId = None, call_parameters = None, call_facadeVersion = 1 \<rparr>)))) =
     [1, 2, 3, 4]
   \<and> pending (transport (run (map Send
       [\<lparr> call_entityType = ''Client'', call_requestName = ''ServiceGet'',
          call_entityId = None, call_parameters = None, call_facadeVersion = 1 \<rparr>,
        \<lparr> call_entityType = ''Client'', call_requestName = ''SetAnnotations'',
          call_entityId = None, call_parameters = Some (JDict []), call_facadeVersion = 1 \<rparr>,
        \<lparr> call_entityType = ''Admin'', call_requestName = ''Login'',
          call_entityId = None, call_parameters = None, call_facadeVersion = 2 \<rparr>])
     (run [Send \<lparr> call_entityType = ''Client'', call_requestName = ''ServiceGet'',
                   call_entityId = None, call_parameters = None, call_facadeVersion = 1 \<rparr>,
           Response (JStr ''x'') (Some 1)]
        (connect 1
          (\<lparr> call_entityType = ''Client'', call_requestName = ''WatchAll'',
             call_entityId = None, call_parameters = None, call_facadeVersion = 1 \<rparr>,
           \<lparr> call_entityType = ''AllWatcher'', call_requestName = ''Next'',
             call_entityId = None, call_parameters = None, call_facadeVersion = 1 \<rparr>))))) =
     [2, 3, 4]"
proof -
  let ?get = "\<lparr> call_entityType = ''Client'', call_requestName = ''ServiceGet'',
          call_entityId = None, call_parameters = None, call_facadeVersion = 1 \<rparr>"
  let ?set = "\<lparr> call_entityType = ''Client'', call_requestName = ''SetAnnotations'',
          call_entityId = None, call_parameters = Some (JDict []), call_facadeVersion = 1 \<rparr>"
  let ?login = "\<lparr> call_entityType = ''Admin'', call_requestName = ''Login'',
          call_entityId = None, call_parameters = None, call_facadeVersion = 2 \<rparr>"
  let ?calls = "(\<lparr> call_entityType = ''Client'', call_requestName = ''WatchAll'',
             call_entityId = None, call_parameters = None, call_facadeVersion = 1 \<rparr>,
           \<lparr> call_entityType = ''AllWatcher'', call_requestName = ''Next'',
             call_entityId = None, call_parameters = None, call_facadeVersion = 1 \<rparr>)"
  let ?s = "run [Send ?get, Response (JStr ''x'') (Some 1)] (connect 1 ?calls)"
  have s: "issued ?s = [1]" "next_id (proto ?s) = 2" "pending (transport ?s) = []"
    by (simp_all add: session_defs)
  from request_ids_never_collide [of "[?get, ?set, ?login]"
      "[Send ?get, Response (JStr ''x'') (Some 1)]" 1 ?calls]
  show ?thesis
    by (simp only: s list.size length_Cons) (simp add: upto_rec1 [of 2] upto_rec1 [of 3])
qed

lemma watcher_step_Stopped:
  "watcher s = Stopped \<Longrightarrow> watcher_step rid out s = ([], s)"
  by (simp add: watcher_step_def)

lemma dataReceived_Stopped:
  assumes "watcher s = Stopped"
  shows "fst (dataReceived payload s) = [] \<and> watcher (snd (dataReceived payload s)) = Stopped"
proof -
  have d: "fst (deliver rid out s) = [] \<and> watcher (snd (deliver rid out s)) = Stopped"
    for rid out
    using assms by (simp add: deliver_def settle_def watcher_step_Stopped)
  show ?thesis
    using assms d by (cases "decode payload") (simp_all add: dataReceived_def)
qed

lemma received_Stopped:
  assumes "watcher (proto sys) = Stopped"
  shows "watcher (proto (received r sys)) = Stopped \<and> polls (received r sys) = polls sys"
proof (cases r)
  case (Pair res b)
  show ?thesis
  proof (cases res)
    case (Inl e)
    with Pair assms show ?thesis by (simp add: received_def)
  next
    case (Inr payload)
    with Pair dataReceived_Stopped [OF assms, of payload] show ?thesis
      by (simp add: received_def emit_def split_beta)
  qed
qed

lemma step_Stopped:
  assumes "watcher (proto sys) = Stopped"
  shows "watcher (proto (step e sys)) = Stopped \<and> polls (step e sys) = polls sys"
proof (cases e)
  case (Send c)
  with assms show ?thesis by (simp add: send_def emit_def)
next
  case WatchAll
  with assms show ?thesis by (simp add: watch_all_def emit_def)
next
  case LoseConnection
  then show ?thesis by (simp add: connectionLost_def split_beta)
qed (simp_all add: received_Stopped [OF assms])

lemma run_Stopped:
  "watcher (proto sys) = Stopped \<Longrightarrow>
     watcher (proto (run evs sys)) = Stopped \<and> polls (run evs sys) = polls sys"
proof (induction evs arbitrary: sys)
  case Nil
  then show ?case by simp
next
  case (Cons e evs)
  from step_Stopped [OF Cons.prems, of e] Cons.IH [of "step e sys"] show ?case by simp
qed

text \<open>
  C3. Connection loss leaves no outcome waiting. In the fake protocol,
  \<^verbatim>\<open>_loseConnection\<close> clears the flag \<^verbatim>\<open>connected\<close>, every pending Deferred that
  had not been called holds \<^verbatim>\<open>ConnectionDone\<close> afterwards, and no pending Deferred is
  left uncalled, also when the call raises at its end. Over the backend, \<^verbatim>\<open>loseConnection\<close> clears the flag of the backend and
  hands \<^verbatim>\<open>ConnectionLost\<close> to the protocol, which rejects every request in flight with
  it and is disconnected; and whatever calls follow, the watcher sends no further
  next-batch call.
\<close>

theorem connection_loss_rejects_pending:
  "protocol_connected (snd (protocol_loseConnection p)) = False
   \<and> (\<forall>(req, d)\<in>set (pending_requests p).
        \<not> called p d \<longrightarrow>
          deferreds (snd (protocol_loseConnection p)) d = Some (Errback ConnectionDone))
   \<and> (\<forall>(req, d)\<in>set (pending_requests p). called (snd (protocol_loseConnection p)) d)
   \<and> connected (transport (step LoseConnection sys)) = False
   \<and> connection (proto (step LoseConnection sys)) = Disconnected
   \<and> in_flight (proto (step LoseConnection sys)) = []
   \<and> outcomes (proto (step LoseConnection sys)) =
       outcomes (proto sys)
       @ map (\<lambda>rid. (rid, ConnectionLostError (ConnectionLost ''Lost the connection'')))
           (in_flight (proto sys))
   \<and> polls (run evs (step LoseConnection sys)) = polls sys"
proof -
  have a: "deferreds (snd (protocol_loseConnection p)) d = Some (Errback ConnectionDone)"
    if "(req, d) \<in> set (pending_requests p)" and "\<not> called p d" for req d
  proof -
    from that have "errbacked p (pending_requests p) d = Some (Errback ConnectionDone)"
      by (force simp: errbacked_def called_def)
    then show ?thesis by (simp add: protocol_loseConnection_deferreds)
  qed
  have c: "called (snd (protocol_loseConnection p)) d"
    if "(req, d) \<in> set (pending_requests p)" for req d
  proof -
    from that have "errbacked p (pending_requests p) d \<noteq> None"
      by (force simp: errbacked_def)
    then show ?thesis by (simp add: called_def protocol_loseConnection_deferreds)
  qed
  have w: "watcher (proto (step LoseConnection sys)) = Stopped"
    and p: "polls (step LoseConnection sys) = polls sys"
    by (simp_all add: connectionLost_def loseConnection_def)
  from run_Stopped [OF w, of evs] p
  have "polls (run evs (step LoseConnection sys)) = polls sys" by simp
  with a c show ?thesis
    by (auto simp: protocol_loseConnection_fields connectionLost_def loseConnection_def)
qed

theorem connection_loss_rejects_pending_witness:
  "protocol_connected (snd (protocol_loseConnection
       (snd (sendRequest ''Client'' ''WatchAll'' None None 1 FakeAPIClientProtocol)))) = False
   \<and> deferreds (snd (protocol_loseConnection
       (snd (sendRequest ''Client'' ''WatchAll'' None None 1 FakeAPIClientProtocol)))) 1 =
     Some (Errback ConnectionDone)
   \<and> called (snd (protocol_loseConnection
       (snd (sendRequest ''Client'' ''WatchAll'' None None 1 FakeAPIClientProtocol)))) 1
   \<and> outcomes (proto (step LoseConnection
       (run [WatchAll, ResponseWatchAll,
             Send \<lparr> call_entityType = ''Client'', call_requestName = ''ServiceGet'',
                     call_entityId = None, call_parameters = None, call_facadeVersion = 1 \<rparr>]
          (connect 1
            (\<lparr> call_entityType = ''Client'', call_requestName = ''WatchAll'',
               call_entityId = None, call_parameters = None, call_facadeVersion = 1 \<rparr>,
             \<lparr> call_entityType = ''AllWatcher'', call_requestName = ''Next'',
               call_entityId = None, call_parameters = None, call_facadeVersion = 1 \<rparr>))))) =
     [(1, Resolved (JDict [(''AllWatcherId'', JStr ''1'')])),
      (2, ConnectionLostError (ConnectionLost ''Lost the connection'')),
      (3, ConnectionLostError (ConnectionLost ''Lost the connection''))]
   \<and> polls (run [ResponseDeltas [Bare (Machine \<lparr> machine_id = JStr ''0'',
                     machine_instanceId = JStr ''i-123'', machine_status = JStr ''started'' \<rparr>)],
                 WatchAll]
       (step LoseConnection
       (run [WatchAll, ResponseWatchAll,
             Send \<lparr> call_entityType = ''Client'', call_requestName = ''ServiceGet'',
                     call_entityId = None, call_parameters = None, call_facadeVersion = 1 \<rparr>]
          (connect 1
            (\<lparr> call_entityType = ''Client'', call_requestName = ''WatchAll'',
               call_entityId = None, call_parameters = None, call_facadeVersion = 1 \<rparr>,
             \<lparr> call_entityType = ''AllWatcher'', call_requestName = ''Next'',
               call_entityId = None, call_parameters = None, call_facadeVersion = 1 \<rparr>))))) =
     [JDict [(''RequestId'', JInt 2), (''Type'', JStr ''AllWatcher''), (''Request'', JStr ''Next''),
             (''Id'', JStr ''1''), (''Version'', JInt 1)]]"
proof -
  let ?p = "snd (sendRequest ''Client'' ''WatchAll'' None None 1 FakeAPIClientProtocol)"
  let ?get = "\<lparr> call_entityType = ''Client'', call_requestName = ''ServiceGet'',
          call_entityId = None, call_parameters = None, call_facadeVersion = 1 \<rparr>"
  let ?calls = "(\<lparr> call_entityType = ''Client'', call_requestName = ''WatchAll'',
             call_entityId = None, call_parameters = None, call_facadeVersion = 1 \<rparr>,
           \<lparr> call_entityType = ''AllWatcher'', call_requestName = ''Next'',
             call_entityId = None, call_parameters = None, call_facadeVersion = 1 \<rparr>)"
  let ?s = "run [WatchAll, ResponseWatchAll, Send ?get] (connect 1 ?calls)"
  let ?evs = "[ResponseDeltas [Bare (Machine \<lparr> machine_id = JStr ''0'',
                     machine_instanceId = JStr ''i-123'', machine_status = JStr ''started'' \<rparr>)],
                 WatchAll]"
  have p: "pending_requests ?p = [((''Client'', ''WatchAll'', None, None, 1), 1)]"
    "\<not> called ?p 1"
    by (simp_all add: sendRequest_def Deferred_def FakeAPIClientProtocol_def called_def)
  have s: "in_flight (proto ?s) = [2, 3]"
    "outcomes (proto ?s) = [(1, Resolved (JDict [(''AllWatcherId'', JStr ''1'')]))]"
    "polls ?s = [JDict [(''RequestId'', JInt 2), (''Type'', JStr ''AllWatcher''),
             (''Request'', JStr ''Next''), (''Id'', JStr ''1''), (''Version'', JInt 1)]]"
    by (simp_all add: session_defs encode_def backend_write_def)
  note t = connection_loss_rejects_pending [of ?p ?s ?evs]
  from t have c1: "protocol_connected (snd (protocol_loseConnection ?p)) = False"
    by (rule conjunct1)
  from t have "\<forall>(req, d)\<in>set (pending_requests ?p). \<not> called ?p d \<longrightarrow>
      deferreds (snd (protocol_loseConnection ?p)) d = Some (Errback ConnectionDone)"
    by (elim conjE)
  with p have c2: "deferreds (snd (protocol_loseConnection ?p)) 1 = Some (Errback ConnectionDone)"
    by simp
  from t have "\<forall>(req, d)\<in>set (pending_requests ?p). called (snd (protocol_loseConnection ?p)) d"
    by (elim conjE)
  with p have c2': "called (snd (protocol_loseConnection ?p)) 1"
    by simp
  from t have "outcomes (proto (step LoseConnection ?s)) =
       outcomes (proto ?s)
       @ map (\<lambda>rid. (rid, ConnectionLostError (ConnectionLost ''Lost the connection'')))
           (in_flight (proto ?s))"
    by (elim conjE)
  then have c3: "outcomes (proto (step LoseConnection ?s)) =
     [(1, Resolved (JDict [(''AllWatcherId'', JStr ''1'')])),
      (2, ConnectionLostError (ConnectionLost ''Lost the connection'')),
      (3, ConnectionLostError (ConnectionLost ''Lost the connection''))]"
    by (simp only: s list.map append.simps)
  from t have "polls (run ?evs (step LoseConnection ?s)) = polls ?s"
    by (elim conjE)
  then have c4: "polls (run ?evs (step LoseConnection ?s)) =
     [JDict [(''RequestId'', JInt 2), (''Type'', JStr ''AllWatcher''), (''Request'', JStr ''Next''),
             (''Id'', JStr ''1''), (''Version'', JInt 1)]]"
    by (simp only: s)
  show ?thesis by (intro conjI c1 c2 c2' c3 c4)
qed

text \<open>
  C7. The machine scenario. On a new connection the watch is started, the backend
  replies with \<^verbatim>\<open>responseWatchAll\<close> and then with \<^verbatim>\<open>responseDeltas\<close> of one machine
  of id \<^verbatim>\<open>0\<close>, instance id \<^verbatim>\<open>i-123\<close> and status \<^verbatim>\<open>started\<close>. The wire carries the
  reply with \<^verbatim>\<open>AllWatcherId\<close> \<^verbatim>\<open>1\<close> under request id 1 and then the reply with the
  one delta \<^verbatim>\<open>["machine", "change", {...}]\<close> under request id 2, and the subscriber
  gets one batch of one ChangeRecord: a machine, changed, with id \<^verbatim>\<open>0\<close>. (The items
  of an object are listed in insertion order.)
\<close>

theorem machine_delta_scenario:
  "wire (run [WatchAll, ResponseWatchAll,
              ResponseDeltas [Bare (Machine \<lparr> machine_id = JStr ''0'',
                 machine_instanceId = JStr ''i-123'', machine_status = JStr ''started'' \<rparr>)]]
          (connect v calls)) =
     [JDict [(''Response'', JDict [(''AllWatcherId'', JStr ''1'')]), (''RequestId'', JInt 1)],
      JDict [(''Response'', JDict [(''Deltas'',
               JList [JList [JStr ''machine'', JStr ''change'',
                             JDict [(''Id'', JStr ''0''), (''InstanceId'', JStr ''i-123''),
                                    (''Status'', JStr ''started'')]]])]),
             (''RequestId'', JInt 2)]]
   \<and> published (proto (run [WatchAll, ResponseWatchAll,
              ResponseDeltas [Bare (Machine \<lparr> machine_id = JStr ''0'',
                 machine_instanceId = JStr ''i-123'', machine_status = JStr ''started'' \<rparr>)]]
          (connect v calls))) =
     [[ChangeRecord KMachine VChange
         (JDict [(''Id'', JStr ''0''), (''InstanceId'', JStr ''i-123''),
                 (''Status'', JStr ''started'')])]]"
  by (simp add: session_defs)

theorem machine_delta_scenario_witness:
  "published (proto (run [WatchAll, ResponseWatchAll,
              ResponseDeltas [Bare (Machine \<lparr> machine_id = JStr ''0'',
                 machine_instanceId = JStr ''i-123'', machine_status = JStr ''started'' \<rparr>)]]
          (connect 1
            (\<lparr> call_entityType = ''Client'', call_requestName = ''WatchAll'',
               call_entityId = None, call_parameters = None, call_facadeVersion = 1 \<rparr>,
             \<lparr> call_entityType = ''AllWatcher'', call_requestName = ''Next'',
               call_entityId = None, call_parameters = None, call_facadeVersion = 1 \<rparr>)))) =
     [[ChangeRecord KMachine VChange
         (JDict [(''Id'', JStr ''0''), (''InstanceId'', JStr ''i-123''),
                 (''Status'', JStr ''started'')])]]"
  using machine_delta_scenario [of 1
      "(\<lparr> call_entityType = ''Client'', call_requestName = ''WatchAll'',
               call_entityId = None, call_parameters = None, call_facadeVersion = 1 \<rparr>,
             \<lparr> call_entityType = ''AllWatcher'', call_requestName = ''Next'',
               call_entityId = None, call_parameters = None, call_facadeVersion = 1 \<rparr>)"]
  by (rule conjunct2)

text \<open>
  Over every session no request id is resolved twice, and while the connection is not
  lost the protocol has in flight exactly the ids the backend has pending.
\<close>

lemma once_iff:
  "once c \<longleftrightarrow>
     distinct (in_flight c) \<and> distinct (map fst (outcomes c))
     \<and> set (in_flight c) \<inter> fst ` set (outcomes c) = {}
     \<and> (\<forall>i\<in>set (in_flight c). i < next_id c)
     \<and> (\<forall>i\<in>fst ` set (outcomes c). i < next_id c)"
  unfolding once_def by (simp add: ball_Un)

lemma once_send:
  assumes "once c"
  shows "once (snd (send call c))"
proof -
  from assms have "next_id c \<notin> set (in_flight c)" and "next_id c \<notin> fst ` set (outcomes c)"
    unfolding once_iff by (metis less_irrefl)+
  then show ?thesis
    using assms unfolding once_iff by (auto simp: send_def less_imp_le)
qed

lemma once_settle:
  assumes "once c"
  shows "once (snd (settle rid out c))"
proof (cases "rid \<in> set (in_flight c)")
  case True
  have "set (remove1 rid (in_flight c)) = set (in_flight c) - {rid}"
    using assms unfolding once_iff by simp
  with True assms show ?thesis
    unfolding once_iff by (simp add: settle_def) blast
next
  case False
  with assms show ?thesis
    unfolding once_iff by (simp add: settle_def)
qed

lemma once_watcher: "once c \<Longrightarrow> once (c\<lparr> watcher := w \<rparr>)"
  by (simp add: once_def)

lemma once_next_batch: "once c \<Longrightarrow> once (snd (next_batch h c))"
  using once_send [of c "(snd (watch_calls c))\<lparr> call_entityId := Some h \<rparr>"]
  by (simp add: next_batch_def split_beta once_def)

lemma once_watch_all: "once c \<Longrightarrow> once (snd (watch_all c))"
  using once_send [of c "(fst (watch_calls c))\<lparr> call_parameters := None \<rparr>"]
  by (simp add: watch_all_def split_beta once_def)

lemma once_published: "once c \<Longrightarrow> once (c\<lparr> published := x \<rparr>)"
  by (simp add: once_def)

lemma watcher_step_cases:
  "snd (watcher_step rid out c) = c
   \<or> (\<exists>h. snd (watcher_step rid out c) = snd (next_batch h c))
   \<or> (\<exists>h b. snd (watcher_step rid out c) = snd (next_batch h (c\<lparr> published := b \<rparr>)))
   \<or> (\<exists>r. snd (watcher_step rid out c) = c\<lparr> watcher := Stopped, reports := r \<rparr>)
   \<or> snd (watcher_step rid out c) = c\<lparr> watcher := Stopped \<rparr>"
  by (auto simp: watcher_step_def
      split: watcher.splits outcome.splits option.splits json.splits)

lemma once_watcher_step:
  assumes "once c"
  shows "once (snd (watcher_step rid out c))"
proof -
  have "once (c\<lparr> watcher := Stopped, reports := r \<rparr>)" for r
    using assms by (simp add: once_def)
  with watcher_step_cases [of rid out c] assms show ?thesis
    by (auto simp: once_next_batch once_published once_watcher)
qed

lemma once_deliver: "once c \<Longrightarrow> once (snd (deliver rid out c))"
proof -
  assume o: "once c"
  obtain ok c' where s: "settle rid out c = (ok, c')" by (cases "settle rid out c")
  with once_settle [OF o, of rid out] have "once c'" by simp
  with s once_watcher_step [of c' rid out] show ?thesis
    by (cases ok) (simp_all add: deliver_def)
qed

lemma once_dataReceived: "once c \<Longrightarrow> once (snd (dataReceived payload c))"
  by (cases "decode payload") (simp_all add: dataReceived_def once_deliver, simp add: once_def)

lemma once_connectionLost: "once c \<Longrightarrow> once (connectionLost reason c)"
  by (auto simp: once_def connectionLost_def comp_def)

lemma proto_emit: "proto (emit sent sys) = proto sys"
  by (simp add: emit_def)

lemma once_received: "once (proto sys) \<Longrightarrow> once (proto (received r sys))"
proof (cases r)
  case (Pair res b)
  assume o: "once (proto sys)"
  show ?thesis
  proof (cases res)
    case (Inl e)
    with Pair o show ?thesis by (simp add: received_def)
  next
    case (Inr payload)
    with Pair once_dataReceived [OF o, of payload] show ?thesis
      by (simp add: received_def split_beta proto_emit)
  qed
qed

lemma once_step: "once (proto sys) \<Longrightarrow> once (proto (step e sys))"
proof (cases e)
  case (Send c)
  assume "once (proto sys)"
  with Send once_send [of "proto sys" c] show ?thesis
    by (simp add: split_beta proto_emit)
next
  case WatchAll
  assume "once (proto sys)"
  with WatchAll once_watch_all [of "proto sys"] show ?thesis
    by (simp add: split_beta proto_emit)
next
  case LoseConnection
  assume "once (proto sys)"
  with LoseConnection show ?thesis
    by (simp add: split_beta once_connectionLost)
qed (simp_all add: once_received)

lemma once_run: "once (proto sys) \<Longrightarrow> once (proto (run evs sys))"
  by (induction evs arbitrary: sys) (simp_all add: once_step)

lemma once_connect: "once (proto (connect v calls))"
  by (simp add: once_def connect_def APIClientProtocol_def)

lemma next_batch_flight:
  "in_flight (snd (next_batch h c)) = in_flight c @ map fst (fst (next_batch h c))
   \<and> outcomes (snd (next_batch h c)) = outcomes c"
  by (simp add: next_batch_def send_def)

lemma watch_all_flight:
  "in_flight (snd (watch_all c)) = in_flight c @ map fst (fst (watch_all c))
   \<and> outcomes (snd (watch_all c)) = outcomes c"
  by (simp add: watch_all_def send_def)

lemma watcher_step_flight:
  "in_flight (snd (watcher_step rid out c)) = in_flight c @ map fst (fst (watcher_step rid out c))
   \<and> outcomes (snd (watcher_step rid out c)) = outcomes c"
  using next_batch_flight [of _ c]
  by (auto simp: watcher_step_def next_batch_def send_def
      split: watcher.splits outcome.splits option.splits json.splits)

lemma deliver_known:
  assumes "rid \<in> set (in_flight c)"
  shows "in_flight (snd (deliver rid out c)) =
           remove1 rid (in_flight c) @ map fst (fst (deliver rid out c))
       \<and> outcomes (snd (deliver rid out c)) = outcomes c @ [(rid, out)]"
proof -
  let ?c = "c\<lparr> in_flight := remove1 rid (in_flight c), outcomes := outcomes c @ [(rid, out)] \<rparr>"
  from assms have "deliver rid out c = watcher_step rid out ?c"
    by (simp add: deliver_def settle_def)
  with watcher_step_flight [of rid out ?c] show ?thesis by simp
qed

lemma emit_pending:
  assumes "at_most_one c (sent, c')"
  shows "pending (transport (emit sent sys)) = pending (transport sys) @ map fst sent"
  using assms by (auto simp: at_most_one_def emit_def backend_write_encode)

lemma decode_response:
  "decode (JDict (dict_set [(''Response'', resp)] ''RequestId'' (JInt r))) =
     ResponseEnvelope r resp"
  by (simp add: decode_def)

lemma decode_error:
  "decode (JDict (dict_set [(''Error'', e), (''ErrorCode'', c)] ''RequestId'' (JInt r))) =
     ErrorEnvelope r e (Some c)"
  by (simp add: decode_def)

lemma fire_raises: "fire pl rid b = (Inl e, b') \<Longrightarrow> b' = b"
  by (auto simp: fire_def split: option.splits list.splits if_splits)

lemma fire_returns:
  "fire pl rid b = (Inr payload, b') \<Longrightarrow>
     \<exists>r. r \<in> set (pending b) \<and> (rid = None \<or> rid = Some r)
       \<and> payload = JDict (dict_set pl ''RequestId'' (JInt r))
       \<and> b' = b\<lparr> pending := remove1 r (pending b) \<rparr>"
  by (auto simp: fire_def split: option.splits list.splits if_splits)

lemma received_fire:
  assumes step: "in_step sys"
    and shape: "\<And>r c. dataReceived (JDict (dict_set pl ''RequestId'' (JInt r))) c = deliver r out c"
  shows "in_step (received (fire pl rid (transport sys)) sys)"
    and "i \<in> set (pending (transport sys)) \<Longrightarrow>
           outcomes (proto (received (fire pl (Some i) (transport sys)) sys)) =
             outcomes (proto sys) @ [(i, out)]
         \<and> (\<exists>new. pending (transport (received (fire pl (Some i) (transport sys)) sys)) =
               remove1 i (pending (transport sys)) @ new)"
proof -
  have known: "in_step (received (Inr (JDict (dict_set pl ''RequestId'' (JInt r))),
                   (transport sys)\<lparr> pending := remove1 r (pending (transport sys)) \<rparr>) sys)
       \<and> outcomes (proto (received (Inr (JDict (dict_set pl ''RequestId'' (JInt r))),
                   (transport sys)\<lparr> pending := remove1 r (pending (transport sys)) \<rparr>) sys)) =
             outcomes (proto sys) @ [(r, out)]
       \<and> pending (transport (received (Inr (JDict (dict_set pl ''RequestId'' (JInt r))),
                   (transport sys)\<lparr> pending := remove1 r (pending (transport sys)) \<rparr>) sys)) =
             remove1 r (pending (transport sys)) @ map fst (fst (deliver r out (proto sys)))"
    if r: "r \<in> set (pending (transport sys))" for r
  proof -
    let ?payload = "JDict (dict_set pl ''RequestId'' (JInt r))"
    let ?b = "(transport sys)\<lparr> pending := remove1 r (pending (transport sys)) \<rparr>"
    obtain sent c where d: "deliver r out (proto sys) = (sent, c)"
      by (cases "deliver r out (proto sys)")
    let ?sys = "sys\<lparr> proto := c, transport := ?b, wire := wire sys @ [?payload],
                      polls := polls sys @ map snd sent \<rparr>"
    have rec: "received (Inr ?payload, ?b) sys = emit sent ?sys"
      by (simp add: received_def shape d)
    from r step have "r \<in> set (in_flight (proto sys))" by (simp add: in_step_def)
    from deliver_known [OF this, of out] d
    have f: "in_flight c = remove1 r (in_flight (proto sys)) @ map fst sent"
      and o: "outcomes c = outcomes (proto sys) @ [(r, out)]" by simp_all
    from deliver_one [of "proto sys" r out] d have "at_most_one (proto sys) (sent, c)" by simp
    from emit_pending [OF this, of ?sys]
    have p: "pending (transport (emit sent ?sys)) =
               remove1 r (pending (transport sys)) @ map fst sent" by simp
    from f o p step show ?thesis
      by (simp add: rec d in_step_def proto_emit)
  qed
  show "in_step (received (fire pl rid (transport sys)) sys)"
  proof (cases "fire pl rid (transport sys)")
    case (Pair res b')
    show ?thesis
    proof (cases res)
      case (Inl e)
      with Pair fire_raises [of pl rid "transport sys" e b'] step show ?thesis
        by (simp add: received_def in_step_def)
    next
      case (Inr payload)
      with Pair fire_returns [of pl rid "transport sys" payload b'] obtain r where
        "r \<in> set (pending (transport sys))"
        "payload = JDict (dict_set pl ''RequestId'' (JInt r))"
        "b' = (transport sys)\<lparr> pending := remove1 r (pending (transport sys)) \<rparr>"
        by blast
      with known [of r] Pair Inr show ?thesis by simp
    qed
  qed
  show "outcomes (proto (received (fire pl (Some i) (transport sys)) sys)) =
             outcomes (proto sys) @ [(i, out)]
         \<and> (\<exists>new. pending (transport (received (fire pl (Some i) (transport sys)) sys)) =
               remove1 i (pending (transport sys)) @ new)"
    if "i \<in> set (pending (transport sys))"
    using known [OF that] that by (simp add: fire_known)
qed

lemma dataReceived_response:
  "dataReceived (JDict (dict_set [(''Response'', resp)] ''RequestId'' (JInt r))) c =
     deliver r (Resolved resp) c"
  by (simp only: dataReceived_def decode_response envelope.case)

lemma dataReceived_error:
  "dataReceived (JDict (dict_set [(''Error'', e), (''ErrorCode'', x)] ''RequestId'' (JInt r))) c =
     deliver r (Rejected e (Some x)) c"
  by (simp only: dataReceived_def decode_error envelope.case)

lemma in_step_response:
  "in_step sys \<Longrightarrow> in_step (received (response resp rid (transport sys)) sys)"
  unfolding response_def by (rule received_fire(1)) (simp_all only: dataReceived_response)

lemma in_step_error:
  "in_step sys \<Longrightarrow> in_step (received (error exception rid (transport sys)) sys)"
  unfolding error_def by (rule received_fire(1)) (simp_all only: dataReceived_error)

lemma in_step_step:
  assumes "in_step sys" and "e \<noteq> LoseConnection"
  shows "in_step (step e sys)"
proof (cases e)
  case (Send c)
  with assms(1) show ?thesis
    by (simp add: in_step_def send_def emit_def backend_write_encode)
next
  case WatchAll
  obtain sent c where w: "watch_all (proto sys) = (sent, c)" by (cases "watch_all (proto sys)")
  with watch_all_one [of "proto sys"] have "at_most_one (proto sys) (sent, c)" by simp
  from emit_pending [OF this, of "sys\<lparr> proto := c \<rparr>"] watch_all_flight [of "proto sys"] w
    assms(1) WatchAll
  show ?thesis by (simp add: in_step_def proto_emit)
next
  case (Response resp rid)
  with assms(1) show ?thesis by (simp add: in_step_response)
next
  case (Error exception rid)
  with assms(1) show ?thesis by (simp add: in_step_error)
next
  case ResponseWatchAll
  with assms(1) show ?thesis by (simp add: responseWatchAll_def in_step_response)
next
  case (ResponseDeltas deltas)
  show ?thesis
  proof (cases "format_deltas (transport sys) [] deltas")
    case (Inl x)
    with ResponseDeltas assms(1) show ?thesis
      by (simp add: responseDeltas_def received_def in_step_def)
  next
    case (Inr responses)
    with ResponseDeltas assms(1) show ?thesis
      by (simp add: responseDeltas_def in_step_response)
  qed
next
  case LoseConnection
  with assms(2) show ?thesis by simp
qed

lemma in_step_run:
  "in_step sys \<Longrightarrow> LoseConnection \<notin> set evs \<Longrightarrow> in_step (run evs sys)"
proof (induction evs arbitrary: sys)
  case Nil
  then show ?case by simp
next
  case (Cons e evs)
  from Cons.prems have "in_step (step e sys)" by (intro in_step_step) auto
  with Cons show ?case by simp
qed

lemma in_step_connect: "in_step (connect v calls)"
  by (simp add: in_step_def connect_def APIClientProtocol_def FakeAPIBackend_def)

lemma step_reply:
  assumes "in_step sys" and "i \<in> set (pending (transport sys))"
  shows "in_step (step (reply_event a i) sys)
       \<and> outcomes (proto (step (reply_event a i) sys)) =
           outcomes (proto sys) @ [(i, reply_outcome a i)]
       \<and> (\<exists>new. pending (transport (step (reply_event a i) sys)) =
             remove1 i (pending (transport sys)) @ new)"
proof (cases "a i")
  case (Inl resp)
  have "outcomes (proto (received (fire [(''Response'', resp)] (Some i) (transport sys)) sys)) =
             outcomes (proto sys) @ [(i, Resolved resp)]
         \<and> (\<exists>new. pending (transport (received (fire [(''Response'', resp)] (Some i)
                 (transport sys)) sys)) = remove1 i (pending (transport sys)) @ new)"
    using assms by (intro received_fire(2)) (simp_all only: dataReceived_response)
  with Inl assms(1) in_step_response [of sys resp "Some i"] show ?thesis
    by (simp add: reply_event_def reply_outcome_def response_def)
next
  case (Inr exception)
  have "outcomes (proto (received (fire [(''Error'', exception_error exception),
                 (''ErrorCode'', exception_code exception)] (Some i) (transport sys)) sys)) =
             outcomes (proto sys)
             @ [(i, Rejected (exception_error exception) (Some (exception_code exception)))]
         \<and> (\<exists>new. pending (transport (received (fire [(''Error'', exception_error exception),
                 (''ErrorCode'', exception_code exception)] (Some i) (transport sys)) sys)) =
               remove1 i (pending (transport sys)) @ new)"
    using assms by (intro received_fire(2)) (simp_all only: dataReceived_error)
  with Inr assms(1) in_step_error [of sys exception "Some i"] show ?thesis
    by (simp add: reply_event_def reply_outcome_def error_def)
qed

lemma run_replies:
  "in_step sys \<Longrightarrow> mset ids \<subseteq># mset (pending (transport sys)) \<Longrightarrow>
     outcomes (proto (run (map (reply_event a) ids) sys)) =
       outcomes (proto sys) @ map (\<lambda>i. (i, reply_outcome a i)) ids"
proof (induction ids arbitrary: sys)
  case Nil
  then show ?case by simp
next
  case (Cons i ids)
  from Cons.prems(2) have i: "i \<in> set (pending (transport sys))"
    by (metis mset_subset_eqD list.set_intros(1) set_mset_mset)
  let ?sys = "step (reply_event a i) sys"
  from step_reply [OF Cons.prems(1) i, of a] obtain new where
    s: "in_step ?sys"
    and o: "outcomes (proto ?sys) = outcomes (proto sys) @ [(i, reply_outcome a i)]"
    and p: "pending (transport ?sys) = remove1 i (pending (transport sys)) @ new"
    by blast
  from Cons.prems(2) have "mset ids \<subseteq># mset (remove1 i (pending (transport sys)))"
    by (simp add: insert_subset_eq_iff)
  then have "mset ids \<subseteq># mset (pending (transport ?sys))"
    by (simp add: p subset_mset.add_increasing2)
  from Cons.IH [OF s this] o show ?case by simp
qed

lemma session_ids_distinct:
  assumes "LoseConnection \<notin> set evs"
  shows "distinct (pending (transport (run evs (connect v calls))))"
proof -
  from in_step_run [OF in_step_connect assms]
  have "in_flight (proto (run evs (connect v calls))) =
          pending (transport (run evs (connect v calls)))"
    by (simp add: in_step_def)
  moreover from once_run [OF once_connect]
  have "distinct (in_flight (proto (run evs (connect v calls))))"
    by (simp add: once_iff)
  ultimately show ?thesis by simp
qed

lemma late_reply:
  assumes "r \<in> set (pending (transport sys))"
    and "\<And>c. dataReceived (JDict (dict_set pl ''RequestId'' (JInt r))) c = deliver r out c"
  shows "fst (fire pl (Some r) (transport (step LoseConnection sys))) =
           Inr (JDict (dict_set pl ''RequestId'' (JInt r)))
       \<and> reports (proto (received (fire pl (Some r) (transport (step LoseConnection sys)))
             (step LoseConnection sys))) =
           reports (proto (step LoseConnection sys)) @ [UnmatchedResponseError r]
       \<and> outcomes (proto (received (fire pl (Some r) (transport (step LoseConnection sys)))
             (step LoseConnection sys))) =
           outcomes (proto (step LoseConnection sys))"
proof -
  let ?l = "step LoseConnection sys"
  from assms(1) have p: "r \<in> set (pending (transport ?l))"
    by (simp add: loseConnection_def)
  have e: "in_flight (proto ?l) = []"
    by (simp add: loseConnection_def connectionLost_def)
  then have d: "deliver r out (proto ?l) =
      ([], (proto ?l)\<lparr> reports := reports (proto ?l) @ [UnmatchedResponseError r] \<rparr>)"
    by (simp add: deliver_def settle_def del: step.simps)
  from p show ?thesis
    by (simp add: fire_known received_def assms(2) d proto_emit del: step.simps)
qed

text \<open>
  C4, amended. A response or an error for a request id that arrives after the
  disconnection does not raise: the backend hands it to the protocol, which resolves
  nothing and reports it as an UnmatchedResponseError. A response or an error for an id
  that is not in the pending list of the backend, because it was never written or has
  been fired already, raises ValueError out of \<^verbatim>\<open>_fire\<close> before anything is handed to
  the protocol, and leaves the backend as it was.
\<close>

theorem reply_without_pending_request:
  "(r \<notin> set (pending b) \<longrightarrow>
      response resp (Some r) b = (Inl ValueError, b)
    \<and> error exception (Some r) b = (Inl ValueError, b))
   \<and> (r \<in> set (pending (transport sys)) \<longrightarrow>
      fst (response resp (Some r) (transport (step LoseConnection sys))) =
        Inr (JDict [(''Response'', resp), (''RequestId'', JInt r)])
    \<and> reports (proto (step (Response resp (Some r)) (step LoseConnection sys))) =
        reports (proto (step LoseConnection sys)) @ [UnmatchedResponseError r]
    \<and> outcomes (proto (step (Response resp (Some r)) (step LoseConnection sys))) =
        outcomes (proto (step LoseConnection sys))
    \<and> fst (error exception (Some r) (transport (step LoseConnection sys))) =
        Inr (JDict [(''Error'', exception_error exception),
                    (''ErrorCode'', exception_code exception), (''RequestId'', JInt r)])
    \<and> reports (proto (step (Error exception (Some r)) (step LoseConnection sys))) =
        reports (proto (step LoseConnection sys)) @ [UnmatchedResponseError r]
    \<and> outcomes (proto (step (Error exception (Some r)) (step LoseConnection sys))) =
        outcomes (proto (step LoseConnection sys)))"
proof (intro conjI impI)
  assume "r \<notin> set (pending b)"
  then show "response resp (Some r) b = (Inl ValueError, b)"
    and "error exception (Some r) b = (Inl ValueError, b)"
    by (simp_all add: response_def error_def fire_unknown)
next
  assume r: "r \<in> set (pending (transport sys))"
  note a = late_reply [OF r, of "[(''Response'', resp)]" "Resolved resp",
      OF dataReceived_response, folded response_def]
  note b = late_reply [OF r, of "[(''Error'', exception_error exception),
        (''ErrorCode'', exception_code exception)]"
      "Rejected (exception_error exception) (Some (exception_code exception))",
      OF dataReceived_error, folded error_def]
  from a show "fst (response resp (Some r) (transport (step LoseConnection sys))) =
        Inr (JDict [(''Response'', resp), (''RequestId'', JInt r)])"
    by (simp del: step.simps)
  from a show "reports (proto (step (Response resp (Some r)) (step LoseConnection sys))) =
        reports (proto (step LoseConnection sys)) @ [UnmatchedResponseError r]"
    by (simp del: step.simps add: step.simps(3))
  from a show "outcomes (proto (step (Response resp (Some r)) (step LoseConnection sys))) =
        outcomes (proto (step LoseConnection sys))"
    by (simp del: step.simps add: step.simps(3))
  from b show "fst (error exception (Some r) (transport (step LoseConnection sys))) =
        Inr (JDict [(''Error'', exception_error exception),
                    (''ErrorCode'', exception_code exception), (''RequestId'', JInt r)])"
    by (simp del: step.simps add: error_def)
  from b show "reports (proto (step (Error exception (Some r)) (step LoseConnection sys))) =
        reports (proto (step LoseConnection sys)) @ [UnmatchedResponseError r]"
    by (simp del: step.simps add: step.simps(4))
  from b show "outcomes (proto (step (Error exception (Some r)) (step LoseConnection sys))) =
        outcomes (proto (step LoseConnection sys))"
    by (simp del: step.simps add: step.simps(4))
qed

theorem reply_without_pending_request_witness:
  "response (JStr ''late'') (Some 7) (FakeAPIBackend 1\<lparr> pending := [1] \<rparr>) =
     (Inl ValueError, FakeAPIBackend 1\<lparr> pending := [1] \<rparr>)
   \<and> error \<lparr> exception_error = JStr ''no'', exception_code = JStr ''bad'' \<rparr> (Some 7)
       (FakeAPIBackend 1\<lparr> pending := [1] \<rparr>) =
     (Inl ValueError, FakeAPIBackend 1\<lparr> pending := [1] \<rparr>)
   \<and> fst (response (JStr ''late'') (Some 1)
        (transport (step LoseConnection
          (run [Send \<lparr> call_entityType = ''Client'', call_requestName = ''ServiceGet'',
                        call_entityId = None, call_parameters = None, call_facadeVersion = 1 \<rparr>]
             (connect 1
               (\<lparr> call_entityType = ''Client'', call_requestName = ''WatchAll'',
                  call_entityId = None, call_parameters = None, call_facadeVersion = 1 \<rparr>,
                \<lparr> call_entityType = ''AllWatcher'', call_requestName = ''Next'',
                  call_entityId = None, call_parameters = None, call_facadeVersion = 1 \<rparr>)))))) =
     Inr (JDict [(''Response'', JStr ''late''), (''RequestId'', JInt 1)])
   \<and> reports (proto (step (Response (JStr ''late'') (Some 1))
        (step LoseConnection
          (run [Send \<lparr> call_entityType = ''Client'', call_requestName = ''ServiceGet'',
                        call_entityId = None, call_parameters = None, call_facadeVersion = 1 \<rparr>]
             (connect 1
               (\<lparr> call_entityType = ''Client'', call_requestName = ''WatchAll'',
                  call_entityId = None, call_parameters = None, call_facadeVersion = 1 \<rparr>,
                \<lparr> call_entityType = ''AllWatcher'', call_requestName = ''Next'',
                  call_entityId = None, call_parameters = None, call_facadeVersion = 1 \<rparr>)))))) =
     [UnmatchedResponseError 1]
   \<and> reports (proto (step (Error \<lparr> exception_error = JStr ''no'', exception_code = JStr ''bad'' \<rparr>
                              (Some 1))
        (step LoseConnection
          (run [Send \<lparr> call_entityType = ''Client'', call_requestName = ''ServiceGet'',
                        call_entityId = None, call_parameters = None, call_facadeVersion = 1 \<rparr>]
             (connect 1
               (\<lparr> call_entityType = ''Client'', call_requestName = ''WatchAll'',
                  call_entityId = None, call_parameters = None, call_facadeVersion = 1 \<rparr>,
                \<lparr> call_entityType = ''AllWatcher'', call_requestName = ''Next'',
                  call_entityId = None, call_parameters = None, call_facadeVersion = 1 \<rparr>)))))) =
     [UnmatchedResponseError 1]"
proof -
  let ?b = "FakeAPIBackend 1\<lparr> pending := [1] \<rparr>"
  let ?e = "\<lparr> exception_error = JStr ''no'', exception_code = JStr ''bad'' \<rparr>"
  let ?s = "run [Send \<lparr> call_entityType = ''Client'', call_requestName = ''ServiceGet'',
                        call_entityId = None, call_parameters = None, call_facadeVersion = 1 \<rparr>]
             (connect 1
               (\<lparr> call_entityType = ''Client'', call_requestName = ''WatchAll'',
                  call_entityId = None, call_parameters = None, call_facadeVersion = 1 \<rparr>,
                \<lparr> call_entityType = ''AllWatcher'', call_requestName = ''Next'',
                  call_entityId = None, call_parameters = None, call_facadeVersion = 1 \<rparr>))"
  note t = reply_without_pending_request [where r = 7 and b = ?b and resp = "JStr ''late''"
      and exception = ?e]
  note u = reply_without_pending_request [where r = 1 and sys = ?s and resp = "JStr ''late''"
      and exception = ?e]
  have n: "7 \<notin> set (pending ?b)" by simp
  from t [THEN conjunct1, rule_format, OF n]
  have W1: "response (JStr ''late'') (Some 7) ?b = (Inl ValueError, ?b)"
    and W2: "error ?e (Some 7) ?b = (Inl ValueError, ?b)"
    by blast+
  have ps: "pending (transport ?s) = [1]" and rs: "reports (proto ?s) = []"
    by (simp_all add: session_defs)
  have m: "1 \<in> set (pending (transport ?s))" by (simp only: ps) simp
  have rl: "reports (proto (step LoseConnection ?s)) = []"
    using rs by (simp add: connectionLost_def split_beta del: run.simps)
  note w = u [THEN conjunct2, rule_format, OF m]
  from w have W3: "fst (response (JStr ''late'') (Some 1) (transport (step LoseConnection ?s))) =
     Inr (JDict [(''Response'', JStr ''late''), (''RequestId'', JInt 1)])"
    by (elim conjE)
  from w have "reports (proto (step (Response (JStr ''late'') (Some 1)) (step LoseConnection ?s))) =
        reports (proto (step LoseConnection ?s)) @ [UnmatchedResponseError 1]"
    by (elim conjE)
  then have W4: "reports (proto (step (Response (JStr ''late'') (Some 1))
        (step LoseConnection ?s))) = [UnmatchedResponseError 1]"
    by (simp only: rl append_Nil)
  from w have "reports (proto (step (Error ?e (Some 1)) (step LoseConnection ?s))) =
        reports (proto (step LoseConnection ?s)) @ [UnmatchedResponseError 1]"
    by (elim conjE)
  then have W5: "reports (proto (step (Error ?e (Some 1)) (step LoseConnection ?s))) =
        [UnmatchedResponseError 1]"
    by (simp only: rl append_Nil)
  show ?thesis by (intro conjI W1 W2 W3 W4 W5)
qed

text \<open>
  C2, as the claim states it, fails on the fake protocol, which keeps no request ids and
  gives every reply to the oldest pending request. With two requests pending and the two
  responses given in the other order, both calls raise AssertionError and neither
  Deferred is ever called; with two requests of the same entity type and request, the
  first gets the response meant for the second; and an error meant for the second
  request is fired at the first.
\<close>

theorem replies_out_of_order_counterexample:
  "deferreds (protocol_run
       [SendRequest ''Client'' ''WatchAll'' None None 1,
        SendRequest ''Client'' ''ServiceGet'' None None 1,
        Deliver (Respond ''Client'' ''ServiceGet'' (JStr ''config'')),
        Deliver (Respond ''Client'' ''WatchAll'' (JStr ''watcher''))]
       FakeAPIClientProtocol) 1 = None
   \<and> deferreds (protocol_run
       [SendRequest ''Client'' ''WatchAll'' None None 1,
        SendRequest ''Client'' ''ServiceGet'' None None 1,
        Deliver (Respond ''Client'' ''ServiceGet'' (JStr ''config'')),
        Deliver (Respond ''Client'' ''WatchAll'' (JStr ''watcher''))]
       FakeAPIClientProtocol) 2 = None
   \<and> pending_requests (protocol_run
       [SendRequest ''Client'' ''WatchAll'' None None 1,
        SendRequest ''Client'' ''ServiceGet'' None None 1,
        Deliver (Respond ''Client'' ''ServiceGet'' (JStr ''config'')),
        Deliver (Respond ''Client'' ''WatchAll'' (JStr ''watcher''))]
       FakeAPIClientProtocol) = []
   \<and> fst (protocol_response ''Client'' ''ServiceGet'' (JStr ''config'')
       (protocol_run
          [SendRequest ''Client'' ''WatchAll'' None None 1,
           SendRequest ''Client'' ''ServiceGet'' None None 1]
          FakeAPIClientProtocol)) = Inl AssertionError
   \<and> deferreds (protocol_run
       [SendRequest ''Client'' ''ServiceGet'' (Some ''mysql'') None 1,
        SendRequest ''Client'' ''ServiceGet'' (Some ''wordpress'') None 1,
        Deliver (Respond ''Client'' ''ServiceGet'' (JStr ''config of wordpress'')),
        Deliver (Respond ''Client'' ''ServiceGet'' (JStr ''config of mysql''))]
       FakeAPIClientProtocol) 1 = Some (Callback (JStr ''config of wordpress''))
   \<and> deferreds (protocol_run
       [SendRequest ''Client'' ''WatchAll'' None None 1,
        SendRequest ''Client'' ''ServiceGet'' None None 1,
        Deliver (Fail (Reason ''no such service''))]
       FakeAPIClientProtocol) 1 = Some (Errback (Reason ''no such service''))"
  by (simp add: FakeAPIClientProtocol_def sendRequest_def Deferred_def protocol_response_def
      protocol_error_def callback_def errback_def fire_deferred_def called_def)

text \<open>
  C2, amended. Every pending outcome is resolved at most once. Through the backend:
  firing one payload at each id of any permutation of the pending ids hands each payload
  to the protocol under its own id and empties the pending list, and firing at an id
  that is not pending any more raises ValueError; over every session no id is resolved
  twice, and with the connection up, responses and errors given in any permutation of
  the pending ids resolve the outcome of each id with the payload addressed to it, each
  id once. On the fake protocol, which resolves in arrival order only: replies that
  answer the oldest pending requests in their order call the Deferred of each request
  with its own reply; a Deferred that has been called keeps its result whatever is
  called afterwards, and calling it again raises AlreadyCalledError; a response that
  names another entity type or request than the oldest pending request raises
  AssertionError and calls no Deferred.
\<close>

theorem outcomes_fire_exactly_once:
  "(mset ids = mset (pending b) \<longrightarrow>
      fire_each f ids b =
        (Inr (map (\<lambda>i. JDict (dict_set (f i) ''RequestId'' (JInt i))) ids),
         b\<lparr> pending := [] \<rparr>)
      \<and> (\<forall>before after i. ids = before @ after \<and> i \<notin> set after \<longrightarrow>
            fire payload (Some i) (snd (fire_each f before b)) =
              (Inl ValueError, snd (fire_each f before b))))
   \<and> distinct (map fst (outcomes (proto (run evs (connect v calls)))))
   \<and> (LoseConnection \<notin> set evs
        \<and> mset rids = mset (pending (transport (run evs (connect v calls)))) \<longrightarrow>
      distinct rids
      \<and> outcomes (proto (run (map (reply_event a) rids) (run evs (connect v calls)))) =
          outcomes (proto (run evs (connect v calls)))
          @ map (\<lambda>i. (i, reply_outcome a i)) rids)
   \<and> (LoseTransport \<notin> set cs
        \<and> pending_requests (protocol_run cs FakeAPIClientProtocol) = reqs @ later
        \<and> list_all2 answers xs (map fst reqs) \<longrightarrow>
      deliver_replies xs (protocol_run cs FakeAPIClientProtocol) =
        (Inr (), (protocol_run cs FakeAPIClientProtocol)
           \<lparr> pending_requests := later,
             deferreds := deferreds (protocol_run cs FakeAPIClientProtocol)
                          ++ map_of (zip (map snd reqs) (map result_of xs)) \<rparr>)
      \<and> (\<forall>k<length reqs.
            (deferreds (protocol_run cs FakeAPIClientProtocol)
             ++ map_of (zip (map snd reqs) (map result_of xs))) (snd (reqs ! k)) =
              Some (result_of (xs ! k))))
   \<and> (deferreds p d = Some x \<and> d < allocated p \<longrightarrow>
        deferreds (protocol_run cs' p) d = Some x)
   \<and> (called p d \<longrightarrow>
        callback d content p = (Inl AlreadyCalledError, p)
      \<and> errback d reason p = (Inl AlreadyCalledError, p))
   \<and> (pending_requests p = (r, d') # rest
        \<and> \<not> answers (Respond entityType request content) r \<longrightarrow>
        fst (protocol_response entityType request content p) = Inl AssertionError
      \<and> deferreds (snd (protocol_response entityType request content p)) = deferreds p)"
proof (intro conjI impI allI)
  assume "mset ids = mset (pending b)"
  then show "fire_each f ids b =
        (Inr (map (\<lambda>i. JDict (dict_set (f i) ''RequestId'' (JInt i))) ids),
         b\<lparr> pending := [] \<rparr>)"
    by (rule fire_each_all)
next
  fix before after i
  assume "mset ids = mset (pending b)" and "ids = before @ after \<and> i \<notin> set after"
  then show "fire payload (Some i) (snd (fire_each f before b)) =
              (Inl ValueError, snd (fire_each f before b))"
    by (intro fire_each_rest [of before after]) simp_all
next
  from once_run [OF once_connect, of evs v calls]
  show "distinct (map fst (outcomes (proto (run evs (connect v calls)))))"
    by (simp add: once_iff)
next
  assume a: "LoseConnection \<notin> set evs
        \<and> mset rids = mset (pending (transport (run evs (connect v calls))))"
  with session_ids_distinct [of evs v calls] show "distinct rids"
    by (metis mset_eq_imp_distinct_iff)
  from a in_step_run [OF in_step_connect, of evs v calls]
  show "outcomes (proto (run (map (reply_event a) rids) (run evs (connect v calls)))) =
          outcomes (proto (run evs (connect v calls)))
          @ map (\<lambda>i. (i, reply_outcome a i)) rids"
    by (intro run_replies) simp_all
next
  assume a: "LoseTransport \<notin> set cs
        \<and> pending_requests (protocol_run cs FakeAPIClientProtocol) = reqs @ later
        \<and> list_all2 answers xs (map fst reqs)"
  then show "deliver_replies xs (protocol_run cs FakeAPIClientProtocol) =
        (Inr (), (protocol_run cs FakeAPIClientProtocol)
           \<lparr> pending_requests := later,
             deferreds := deferreds (protocol_run cs FakeAPIClientProtocol)
                          ++ map_of (zip (map snd reqs) (map result_of xs)) \<rparr>)"
    by (intro deliver_replies_waiting(1)) simp_all
  fix k
  assume "k < length reqs"
  with a deliver_replies_waiting(2) [of cs reqs later xs]
  show "(deferreds (protocol_run cs FakeAPIClientProtocol)
             ++ map_of (zip (map snd reqs) (map result_of xs))) (snd (reqs ! k)) =
              Some (result_of (xs ! k))"
    by simp
next
  assume "deferreds p d = Some x \<and> d < allocated p"
  then show "deferreds (protocol_run cs' p) d = Some x"
    by (intro kept_run) simp_all
next
  assume "called p d"
  from fire_deferred_called [OF this, of content reason]
  show "callback d content p = (Inl AlreadyCalledError, p)"
    and "errback d reason p = (Inl AlreadyCalledError, p)"
    by simp_all
next
  assume "pending_requests p = (r, d') # rest
        \<and> \<not> answers (Respond entityType request content) r"
  then have "pending_requests p = (r, d') # rest"
    and "\<not> answers (Respond entityType request content) r"
    by blast+
  then have "protocol_response entityType request content p =
       (Inl AssertionError, p\<lparr> pending_requests := rest \<rparr>)"
    by (rule protocol_response_mismatch)
  then show "fst (protocol_response entityType request content p) = Inl AssertionError"
    and "deferreds (snd (protocol_response entityType request content p)) = deferreds p"
    by simp_all
qed

theorem outcomes_fire_exactly_once_witness:
  "fire_each (\<lambda>i. [(''Response'', JInt (10 * i))]) [3, 1, 2]
     (FakeAPIBackend 1\<lparr> pending := [1, 2, 3] \<rparr>) =
     (Inr [JDict [(''Response'', JInt 30), (''RequestId'', JInt 3)],
           JDict [(''Response'', JInt 10), (''RequestId'', JInt 1)],
           JDict [(''Response'', JInt 20), (''RequestId'', JInt 2)]],
      FakeAPIBackend 1\<lparr> pending := [] \<rparr>)
   \<and> fst (fire [(''Response'', JInt 30)] (Some 3)
       (snd (fire_each (\<lambda>i. [(''Response'', JInt (10 * i))]) [3]
          (FakeAPIBackend 1\<lparr> pending := [1, 2, 3] \<rparr>)))) = Inl ValueError
   \<and> outcomes (proto (run
       (map (reply_event (\<lambda>i. if i = 1 then Inl (JStr ''one'')
               else Inr \<lparr> exception_error = JStr ''denied'',
                          exception_code = JStr ''unauthorized'' \<rparr>)) [2, 1])
       (run [Send \<lparr> call_entityType = ''Client'', call_requestName = ''ServiceGet'',
                     call_entityId = None, call_parameters = None, call_facadeVersion = 1 \<rparr>,
             Send \<lparr> call_entityType = ''Admin'', call_requestName = ''Login'',
                     call_entityId = None, call_parameters = None, call_facadeVersion = 2 \<rparr>]
          (connect 1
            (\<lparr> call_entityType = ''Client'', call_requestName = ''WatchAll'',
               call_entityId = None, call_parameters = None, call_facadeVersion = 1 \<rparr>,
             \<lparr> call_entityType = ''AllWatcher'', call_requestName = ''Next'',
               call_entityId = None, call_parameters = None, call_facadeVersion = 1 \<rparr>))))) =
     [(2, Rejected (JStr ''denied'') (Some (JStr ''unauthorized''))),
      (1, Resolved (JStr ''one''))]
   \<and> fst (deliver_replies
       [Respond ''Client'' ''WatchAll'' (JStr ''watcher''), Fail (Reason ''no such service'')]
       (protocol_run [SendRequest ''Client'' ''WatchAll'' None None 1,
                      SendRequest ''Client'' ''ServiceGet'' None None 1]
          FakeAPIClientProtocol)) = Inr ()
   \<and> deferreds (snd (deliver_replies
       [Respond ''Client'' ''WatchAll'' (JStr ''watcher''), Fail (Reason ''no such service'')]
       (protocol_run [SendRequest ''Client'' ''WatchAll'' None None 1,
                      SendRequest ''Client'' ''ServiceGet'' None None 1]
          FakeAPIClientProtocol))) 1 = Some (Callback (JStr ''watcher''))
   \<and> deferreds (snd (deliver_replies
       [Respond ''Client'' ''WatchAll'' (JStr ''watcher''), Fail (Reason ''no such service'')]
       (protocol_run [SendRequest ''Client'' ''WatchAll'' None None 1,
                      SendRequest ''Client'' ''ServiceGet'' None None 1]
          FakeAPIClientProtocol))) 2 = Some (Errback (Reason ''no such service''))
   \<and> deferreds (protocol_run [LoseTransport, Deliver (Fail (Reason ''late''))]
       (protocol_run [SendRequest ''Client'' ''WatchAll'' None None 1,
                      SendRequest ''Client'' ''ServiceGet'' None None 1,
                      Deliver (Respond ''Client'' ''WatchAll'' (JStr ''watcher''))]
          FakeAPIClientProtocol)) 1 = Some (Callback (JStr ''watcher''))
   \<and> fst (callback 1 (JStr ''again'')
       (protocol_run [SendRequest ''Client'' ''WatchAll'' None None 1,
                      SendRequest ''Client'' ''ServiceGet'' None None 1,
                      Deliver (Respond ''Client'' ''WatchAll'' (JStr ''watcher''))]
          FakeAPIClientProtocol)) = Inl AlreadyCalledError
   \<and> fst (protocol_response ''Client'' ''ServiceGet'' (JStr ''config'')
       (protocol_run [SendRequest ''Client'' ''WatchAll'' None None 1,
                      SendRequest ''Client'' ''ServiceGet'' None None 1]
          FakeAPIClientProtocol)) = Inl AssertionError"
proof -
  let ?b = "FakeAPIBackend 1\<lparr> pending := [1, 2, 3] \<rparr>"
  let ?f = "\<lambda>i::int. [(''Response'', JInt (10 * i))]"
  let ?a = "\<lambda>i::int. if i = 1 then Inl (JStr ''one'')
               else Inr \<lparr> exception_error = JStr ''denied'',
                          exception_code = JStr ''unauthorized'' \<rparr>"
  let ?evs = "[Send \<lparr> call_entityType = ''Client'', call_requestName = ''ServiceGet'',
                     call_entityId = None, call_parameters = None, call_facadeVersion = 1 \<rparr>,
             Send \<lparr> call_entityType = ''Admin'', call_requestName = ''Login'',
                     call_entityId = None, call_parameters = None, call_facadeVersion = 2 \<rparr>]"
  let ?calls = "(\<lparr> call_entityType = ''Client'', call_requestName = ''WatchAll'',
               call_entityId = None, call_parameters = None, call_facadeVersion = 1 \<rparr>,
             \<lparr> call_entityType = ''AllWatcher'', call_requestName = ''Next'',
               call_entityId = None, call_parameters = None, call_facadeVersion = 1 \<rparr>)"
  let ?s = "run ?evs (connect 1 ?calls)"
  let ?cs = "[SendRequest ''Client'' ''WatchAll'' None None 1,
              SendRequest ''Client'' ''ServiceGet'' None None 1]"
  let ?p0 = "protocol_run ?cs FakeAPIClientProtocol"
  let ?p1 = "protocol_run [SendRequest ''Client'' ''WatchAll'' None None 1,
                      SendRequest ''Client'' ''ServiceGet'' None None 1,
                      Deliver (Respond ''Client'' ''WatchAll'' (JStr ''watcher''))]
          FakeAPIClientProtocol"
  let ?xs = "[Respond ''Client'' ''WatchAll'' (JStr ''watcher''), Fail (Reason ''no such service'')]"
  let ?r1 = "(''Client'', ''WatchAll'', None :: string option, None :: json option, 1 :: int)"
  let ?r2 = "(''Client'', ''ServiceGet'', None :: string option, None :: json option, 1 :: int)"
  note t = outcomes_fire_exactly_once
    [where b = ?b and ids = "[3, 1, 2]" and f = ?f and payload = "[(''Response'', JInt 30)]"
       and evs = ?evs and v = 1 and calls = ?calls and rids = "[2, 1]" and a = ?a
       and cs = ?cs and reqs = "[(?r1, 1), (?r2, 2)]" and later = "[]" and xs = ?xs
       and p = ?p1 and d = 1 and x = "Callback (JStr ''watcher'')"
       and cs' = "[LoseTransport, Deliver (Fail (Reason ''late''))]"
       and content = "JStr ''again''"]
  note u = outcomes_fire_exactly_once
    [where p = ?p0 and r = ?r1 and d' = 1 and rest = "[(?r2, 2)]"
       and entityType = "''Client''" and request = "''ServiceGet''"
       and content = "JStr ''config''"]
  have hb: "mset [3, 1, 2] = mset (pending ?b)" by simp
  from t [THEN conjunct1, rule_format, OF hb]
  have b1: "fire_each ?f [3, 1, 2] ?b =
        (Inr (map (\<lambda>i. JDict (dict_set (?f i) ''RequestId'' (JInt i))) [3, 1, 2]),
         ?b\<lparr> pending := [] \<rparr>)"
    and b2: "\<forall>before after i. [3, 1, 2] = before @ after \<and> i \<notin> set after \<longrightarrow>
            fire [(''Response'', JInt 30)] (Some i) (snd (fire_each ?f before ?b)) =
              (Inl ValueError, snd (fire_each ?f before ?b))"
    by blast+
  from b1 have W1: "fire_each ?f [3, 1, 2] ?b =
     (Inr [JDict [(''Response'', JInt 30), (''RequestId'', JInt 3)],
           JDict [(''Response'', JInt 10), (''RequestId'', JInt 1)],
           JDict [(''Response'', JInt 20), (''RequestId'', JInt 2)]],
      FakeAPIBackend 1\<lparr> pending := [] \<rparr>)"
    by (simp del: fire_each.simps)
  from b2 [rule_format, of "[3]" "[1, 2]" 3]
  have W2: "fst (fire [(''Response'', JInt 30)] (Some 3) (snd (fire_each ?f [3] ?b))) =
      Inl ValueError"
    by (simp del: fire_each.simps)
  have ps: "pending (transport ?s) = [1, 2]" and os: "outcomes (proto ?s) = []"
    by (simp_all add: session_defs)
  have hs: "LoseConnection \<notin> set ?evs \<and> mset [2, 1] = mset (pending (transport ?s))"
    by (simp only: ps) simp
  from t [THEN conjunct2, THEN conjunct2, THEN conjunct1, rule_format, OF hs]
  have "outcomes (proto (run (map (reply_event ?a) [2, 1]) ?s)) =
          outcomes (proto ?s) @ map (\<lambda>i. (i, reply_outcome ?a i)) [2, 1]"
    by (rule conjunct2)
  also have "outcomes (proto ?s) @ map (\<lambda>i. (i, reply_outcome ?a i)) [2, 1] =
     [(2, Rejected (JStr ''denied'') (Some (JStr ''unauthorized''))),
      (1, Resolved (JStr ''one''))]"
    by (simp only: os) (simp add: reply_outcome_def)
  finally have W3: "outcomes (proto (run (map (reply_event ?a) [2, 1]) ?s)) =
     [(2, Rejected (JStr ''denied'') (Some (JStr ''unauthorized''))),
      (1, Resolved (JStr ''one''))]" .
  have pp: "pending_requests ?p0 = [(?r1, 1), (?r2, 2)]"
    by (simp add: sendRequest_def Deferred_def FakeAPIClientProtocol_def)
  have hp: "LoseTransport \<notin> set ?cs \<and> pending_requests ?p0 = [(?r1, 1), (?r2, 2)] @ []
        \<and> list_all2 answers ?xs (map fst [(?r1, 1), (?r2, 2)])"
    by (simp only: pp) simp
  from t [THEN conjunct2, THEN conjunct2, THEN conjunct2, THEN conjunct1, rule_format, OF hp]
  have d: "deliver_replies ?xs ?p0 =
        (Inr (), ?p0\<lparr> pending_requests := [],
             deferreds := deferreds ?p0
                ++ map_of (zip (map snd [(?r1, 1), (?r2, 2)]) (map result_of ?xs)) \<rparr>)"
    by (rule conjunct1)
  have W4: "fst (deliver_replies ?xs ?p0) = Inr ()"
    by (simp only: d fst_conv)
  have W5: "deferreds (snd (deliver_replies ?xs ?p0)) 1 = Some (Callback (JStr ''watcher''))"
    and W6: "deferreds (snd (deliver_replies ?xs ?p0)) 2 =
               Some (Errback (Reason ''no such service''))"
    by (simp_all only: d snd_conv) (simp_all del: protocol_run.simps)
  have k: "deferreds ?p1 1 = Some (Callback (JStr ''watcher'')) \<and> 1 < allocated ?p1"
    by (simp add: sendRequest_def Deferred_def FakeAPIClientProtocol_def protocol_response_def
        callback_def fire_deferred_def called_def)
  from t [THEN conjunct2, THEN conjunct2, THEN conjunct2, THEN conjunct2, THEN conjunct1,
      rule_format, OF k]
  have W7: "deferreds (protocol_run [LoseTransport, Deliver (Fail (Reason ''late''))] ?p1) 1 =
      Some (Callback (JStr ''watcher''))" .
  from k have c: "called ?p1 1" by (simp only: called_def) simp
  from t [THEN conjunct2, THEN conjunct2, THEN conjunct2, THEN conjunct2, THEN conjunct2,
      THEN conjunct1, rule_format, OF c]
  have W8: "fst (callback 1 (JStr ''again'') ?p1) = Inl AlreadyCalledError"
    by (simp only: fst_conv)
  have hm: "pending_requests ?p0 = (?r1, 1) # [(?r2, 2)]
        \<and> \<not> answers (Respond ''Client'' ''ServiceGet'' (JStr ''config'')) ?r1"
    by (simp only: pp) simp
  from u [THEN conjunct2, THEN conjunct2, THEN conjunct2, THEN conjunct2, THEN conjunct2,
      THEN conjunct2, rule_format, OF hm]
  have W9: "fst (protocol_response ''Client'' ''ServiceGet'' (JStr ''config'') ?p0) =
      Inl AssertionError"
    by (rule conjunct1)
  show ?thesis by (intro conjI W1 W2 W3 W4 W5 W6 W7 W8 W9)
qed

end
